theory Spec2Isabelle
  imports Main
begin

section \<open>Go primitives used by y4mlib\<close>

text \<open>
  Go's \<^verbatim>\<open>int\<close> is a 64-bit two's complement integer on the platforms the library is
  built for. It is modelled as an \<^typ>\<open>int\<close> with the wrap-around written out: every sum
  and product of the source is wrapped by \<open>wrap64\<close>. Go's \<^verbatim>\<open>/\<close> truncates towards zero and
  panics when the divisor is zero.
\<close>

definition wrap64 :: "int \<Rightarrow> int" where
  "wrap64 x = (x + 2 ^ 63) mod 2 ^ 64 - 2 ^ 63"

definition add64 :: "int \<Rightarrow> int \<Rightarrow> int" where
  "add64 a b = wrap64 (a + b)"

definition mul64 :: "int \<Rightarrow> int \<Rightarrow> int" where
  "mul64 a b = wrap64 (a * b)"

definition quo64 :: "int \<Rightarrow> int \<Rightarrow> int" where
  "quo64 a b = wrap64 (sgn a * sgn b * (\<bar>a\<bar> div \<bar>b\<bar>))"

text \<open>Run-time panics of the Go runtime that the library can reach.\<close>

datatype panic = DivideByZero | SliceBounds | MakeSliceRange | NilDereference

text \<open>
  The error values the library returns. \<open>EOF\<close> and \<open>ErrUnexpectedEOF\<close> are the two
  sentinel values of package \<^verbatim>\<open>io\<close>; \<open>ErrSyntax\<close> and \<open>ErrRange\<close> are the two
  \<^verbatim>\<open>strconv.NumError\<close> causes; the others are the messages built in y4mlib.go, with the
  values formatted into them as arguments.
\<close>

datatype err =
    EOF
  | ErrUnexpectedEOF
  | ErrInvalidFormat
  | ErrSeekInvalid
  | ErrSyntax string
  | ErrRange string
  | ErrRatio
  | ErrUnrecognizedField char
  | ErrSkipMagic string
  | ErrNoFrameHeader
  | ErrParseMagic
  | ErrIFieldLength
  | ErrPresentation char
  | ErrTemporal char
  | ErrSpatial char
  | ErrCropWidth int int
  | ErrCropHeight int int

datatype 'a res = Ok 'a | Fail err | Panic panic

definition divGo :: "int \<Rightarrow> int \<Rightarrow> int res" where
  "divGo a b = (if b = 0 then Panic DivideByZero else Ok (quo64 a b))"

text \<open>
  A byte slice is modelled by its visible bytes. \<^verbatim>\<open>xs[x0:x1]\<close> panics unless
  \<open>0 \<le> x0 \<le> x1 \<le> cap xs\<close>; every slice the library allocates and fills completely has
  its capacity equal to its length, and spare capacity beyond the length is not modelled.
  \<^verbatim>\<open>make([]byte, 0, n)\<close> and \<^verbatim>\<open>make([]byte, n)\<close> panic when \<open>n\<close> is negative.
\<close>

definition sliceOf :: "char list \<Rightarrow> int \<Rightarrow> int \<Rightarrow> char list res" where
  "sliceOf xs x0 x1 =
     (if 0 \<le> x0 \<and> x0 \<le> x1 \<and> x1 \<le> int (length xs)
      then Ok (take (nat (x1 - x0)) (drop (nat x0) xs))
      else Panic SliceBounds)"

definition makeCap :: "int \<Rightarrow> unit res" where
  "makeCap n = (if n < 0 then Panic MakeSliceRange else Ok ())"

section \<open>Data model\<close>

record Ratio =
  N :: int
  D :: int

record IField =
  Spatial :: char
  Temporal :: char
  Presentation :: char

record FrameHeader =
  MagicString :: string
  I :: "IField option"
  Metadata :: "string list"
  Raw :: "char list"

record Frame =
  Header :: "FrameHeader option"
  Width :: int
  Height :: int
  Chroma :: string
  Y :: "char list"
  Cb :: "char list"
  Cr :: "char list"
  Alpha :: "char list"

text \<open>
  The open file of a stream: its bytes and the read/write offset of the descriptor.
\<close>

record File =
  contents :: "char list"
  offset :: nat

record Stream =
  osFile :: File
  Width :: int
  Height :: int
  FrameRate :: "Ratio option"
  Interlacing :: string
  SampleAspectRatio :: "Ratio option"
  Chroma :: string
  Metadata :: "string list"
  XSubsamplingFactor :: int
  YSubsamplingFactor :: int
  OriginalHeader :: "char list"

subsection \<open>The subsampling tables\<close>

text \<open>Looking up a key that a Go map does not hold yields the zero value.\<close>

definition xSubsamplingTable :: "(string \<times> int) list" where
  "xSubsamplingTable =
     [(''444'', 1), (''422'', 2), (''411'', 4),
      (''420jpeg'', 2), (''420mpeg2'', 2), (''420paldv'', 2)]"

definition ySubsamplingTable :: "(string \<times> int) list" where
  "ySubsamplingTable =
     [(''444'', 1), (''422'', 1), (''411'', 1),
      (''420jpeg'', 2), (''420mpeg2'', 2), (''420paldv'', 2)]"

definition xSubsamplingFactor :: "string \<Rightarrow> int" where
  "xSubsamplingFactor c = (case map_of xSubsamplingTable c of Some v \<Rightarrow> v | None \<Rightarrow> 0)"

definition ySubsamplingFactor :: "string \<Rightarrow> int" where
  "ySubsamplingFactor c = (case map_of ySubsamplingTable c of Some v \<Rightarrow> v | None \<Rightarrow> 0)"

definition inSubsamplingTable :: "string \<Rightarrow> bool" where
  "inSubsamplingTable c = (c \<in> set (map fst xSubsamplingTable))"

subsection \<open>Plane sizes\<close>

definition LumaPlaneSize :: "Stream \<Rightarrow> int" where
  "LumaPlaneSize s = mul64 (Stream.Height s) (Stream.Width s)"

definition ChromaPlaneSize :: "Stream \<Rightarrow> int res" where
  "ChromaPlaneSize s =
     (if Stream.Chroma s = ''mono'' then Ok 0
      else case divGo (mul64 (Stream.Width s) (Stream.Height s)) (XSubsamplingFactor s) of
             Ok q \<Rightarrow> divGo q (YSubsamplingFactor s)
           | Fail e \<Rightarrow> Fail e
           | Panic p \<Rightarrow> Panic p)"

definition AlphaPlaneSize :: "Stream \<Rightarrow> int" where
  "AlphaPlaneSize s =
     (if Stream.Chroma s = ''444alpha'' then mul64 (Stream.Width s) (Stream.Height s) else 0)"

definition FrameImageDataSize :: "Stream \<Rightarrow> int res" where
  "FrameImageDataSize s =
     (case ChromaPlaneSize s of
        Ok c \<Rightarrow> Ok (add64 (add64 (LumaPlaneSize s) (mul64 2 c)) (AlphaPlaneSize s))
      | Fail e \<Rightarrow> Fail e
      | Panic p \<Rightarrow> Panic p)"

section \<open>Crop\<close>

text \<open>
  The row loop of the luma plane, which the source repeats verbatim for the alpha plane:
  \<^verbatim>\<open>for y := 0; y < h; y++ { yt := y + yOffset; x0 := yt*f.Width + xOffset; x1 := x0 + w;
  new = append(new, src[x0:x1]...) }\<close>.
\<close>

function cropRowLoop ::
  "char list \<Rightarrow> int \<Rightarrow> int \<Rightarrow> int \<Rightarrow> int \<Rightarrow> int \<Rightarrow> int \<Rightarrow> char list \<Rightarrow> char list res"
where
  "cropRowLoop src width w h xOffset yOffset y new =
     (if y < h then
        (let yt = add64 y yOffset;
             x0 = add64 (mul64 yt width) xOffset;
             x1 = add64 x0 w
         in case sliceOf src x0 x1 of
              Ok row \<Rightarrow> cropRowLoop src width w h xOffset yOffset (y + 1) (new @ row)
            | Fail e \<Rightarrow> Fail e
            | Panic p \<Rightarrow> Panic p)
      else Ok new)"
  by pat_completeness auto
termination
  by (relation "measure (\<lambda>(src, width, w, h, xOffset, yOffset, y, new). nat (h - y))") auto

declare cropRowLoop.simps [simp del]

definition cropPlane :: "char list \<Rightarrow> int \<Rightarrow> int \<Rightarrow> int \<Rightarrow> int \<Rightarrow> int \<Rightarrow> char list res" where
  "cropPlane src width w h xOffset yOffset =
     (case makeCap (mul64 w h) of
        Ok u \<Rightarrow> cropRowLoop src width w h xOffset yOffset 0 []
      | Fail e \<Rightarrow> Fail e
      | Panic p \<Rightarrow> Panic p)"

text \<open>
  The row loop of the two chroma planes. It runs only after \<^verbatim>\<open>w/xss\<close> and \<^verbatim>\<open>.../yss\<close>
  have been evaluated for the capacity of the new planes, so \<open>xss\<close> and \<open>yss\<close> are not
  zero here. \<open>yt*f.Width/xss\<close> is \<open>(yt*f.Width)/xss\<close>.
\<close>

function cropChromaLoop ::
  "char list \<Rightarrow> char list \<Rightarrow> int \<Rightarrow> int \<Rightarrow> int \<Rightarrow> int \<Rightarrow> int \<Rightarrow> int \<Rightarrow> int \<Rightarrow> int \<Rightarrow>
   char list \<Rightarrow> char list \<Rightarrow> (char list \<times> char list) res"
where
  "cropChromaLoop cb cr width xss yss w h xOffset yOffset y newCb newCr =
     (if y < quo64 h yss then
        (let yt = add64 y (quo64 yOffset yss);
             x0 = add64 (quo64 (mul64 yt width) xss) (quo64 xOffset xss);
             x1 = add64 x0 (quo64 w xss)
         in case sliceOf cb x0 x1 of
              Ok rowCb \<Rightarrow>
                (case sliceOf cr x0 x1 of
                   Ok rowCr \<Rightarrow>
                     cropChromaLoop cb cr width xss yss w h xOffset yOffset (y + 1)
                       (newCb @ rowCb) (newCr @ rowCr)
                 | Fail e \<Rightarrow> Fail e
                 | Panic p \<Rightarrow> Panic p)
            | Fail e \<Rightarrow> Fail e
            | Panic p \<Rightarrow> Panic p)
      else Ok (newCb, newCr))"
  by pat_completeness auto
termination
  by (relation "measure (\<lambda>(cb, cr, width, xss, yss, w, h, xOffset, yOffset, y, newCb, newCr).
                  nat (quo64 h yss - y))") auto

declare cropChromaLoop.simps [simp del]

text \<open>The capacity \<^verbatim>\<open>w/xss*h/yss\<close> of a new chroma plane, read as \<open>((w/xss)*h)/yss\<close>.\<close>

definition chromaCap :: "int \<Rightarrow> int \<Rightarrow> int \<Rightarrow> int \<Rightarrow> unit res" where
  "chromaCap w h xss yss =
     (case divGo w xss of
        Ok q \<Rightarrow>
          (case divGo (mul64 q h) yss of
             Ok c \<Rightarrow> makeCap c
           | Fail e \<Rightarrow> Fail e
           | Panic p \<Rightarrow> Panic p)
      | Fail e \<Rightarrow> Fail e
      | Panic p \<Rightarrow> Panic p)"

definition cropChroma :: "Frame \<Rightarrow> int \<Rightarrow> int \<Rightarrow> int \<Rightarrow> int \<Rightarrow> (char list \<times> char list) res" where
  "cropChroma f w h xOffset yOffset =
     (let xss = xSubsamplingFactor (Frame.Chroma f);
          yss = ySubsamplingFactor (Frame.Chroma f)
      in case chromaCap w h xss yss of
           Ok u \<Rightarrow>
             (case chromaCap w h xss yss of
                Ok u' \<Rightarrow>
                  cropChromaLoop (Cb f) (Cr f) (Frame.Width f) xss yss w h xOffset yOffset 0 [] []
              | Fail e \<Rightarrow> Fail e
              | Panic p \<Rightarrow> Panic p)
         | Fail e \<Rightarrow> Fail e
         | Panic p \<Rightarrow> Panic p)"

text \<open>
  \<open>Crop\<close> returns its result together with the frame as the call leaves it: the source
  assigns \<^verbatim>\<open>f.Y\<close> before it touches the chroma planes, and \<^verbatim>\<open>f.Cb\<close>, \<^verbatim>\<open>f.Cr\<close> before
  the alpha plane, so a panic in a later step leaves the earlier assignments behind.
\<close>

definition Crop :: "Frame \<Rightarrow> int \<Rightarrow> int \<Rightarrow> int \<Rightarrow> int \<Rightarrow> unit res \<times> Frame" where
  "Crop f w h xOffset yOffset =
     (if add64 w xOffset > Frame.Width f then
        (Fail (ErrCropWidth (add64 w xOffset) (Frame.Width f)), f)
      else if add64 h yOffset > Frame.Height f then
        (Fail (ErrCropHeight (add64 h yOffset) (Frame.Height f)), f)
      else
        case cropPlane (Y f) (Frame.Width f) w h xOffset yOffset of
          Fail e \<Rightarrow> (Fail e, f)
        | Panic p \<Rightarrow> (Panic p, f)
        | Ok newY \<Rightarrow>
            (let f1 = f\<lparr>Y := newY\<rparr> in
             case cropChroma f1 w h xOffset yOffset of
               Fail e \<Rightarrow> (Fail e, f1)
             | Panic p \<Rightarrow> (Panic p, f1)
             | Ok (newCb, newCr) \<Rightarrow>
                 (let f2 = f1\<lparr>Cb := newCb, Cr := newCr\<rparr> in
                  if length (Alpha f2) > 0 then
                    (case cropPlane (Alpha f2) (Frame.Width f2) w h xOffset yOffset of
                       Fail e \<Rightarrow> (Fail e, f2)
                     | Panic p \<Rightarrow> (Panic p, f2)
                     | Ok newAlpha \<Rightarrow>
                         (Ok (), f2\<lparr>Alpha := newAlpha, Frame.Width := w, Frame.Height := h\<rparr>))
                  else (Ok (), f2\<lparr>Frame.Width := w, Frame.Height := h\<rparr>))))"

section \<open>The file and the buffered reader\<close>

text \<open>
  \<^verbatim>\<open>os.File.Seek\<close> with whence 0 (from the start) or 1 (from the current offset). A
  negative resulting offset is refused with \<^verbatim>\<open>EINVAL\<close> and the offset stays where it
  was; an offset beyond the end of the file is accepted.
\<close>

definition Seek :: "File \<Rightarrow> int \<Rightarrow> int \<Rightarrow> int res \<times> File" where
  "Seek fl off whence =
     (let n = (if whence = 0 then off else int (offset fl) + off)
      in if n < 0 then (Fail ErrSeekInvalid, fl) else (Ok n, fl\<lparr>offset := nat n\<rparr>))"

text \<open>
  \<^verbatim>\<open>io.ReadFull\<close> on a regular file: it returns the bytes when all \<open>n\<close> are there,
  \<^verbatim>\<open>io.EOF\<close> when none is, and \<^verbatim>\<open>io.ErrUnexpectedEOF\<close> when some but not all are. The
  offset advances by what was read.
\<close>

definition ReadFull :: "File \<Rightarrow> nat \<Rightarrow> char list res \<times> File" where
  "ReadFull fl n =
     (let got = take n (drop (offset fl) (contents fl));
          fl' = fl\<lparr>offset := offset fl + length got\<rparr>
      in if length got = n then (Ok got, fl')
         else if got = [] then (Fail EOF, fl')
         else (Fail ErrUnexpectedEOF, fl'))"

text \<open>
  \<^verbatim>\<open>bufio.NewReader(s.file)\<close> followed by one \<^verbatim>\<open>ReadBytes(delim)\<close>. The reader fills
  its buffer of 4096 bytes from the file, one read per fill, until a chunk holds the
  delimiter or the file ends. \<open>readBytesFrom\<close> takes the bytes from the file offset on
  and returns the line, the number of bytes taken from the file, and the error
  (\<^verbatim>\<open>io.EOF\<close> when the file ends before a delimiter).
\<close>

definition bufSize :: nat where
  "bufSize = 4096"

function readBytesFrom :: "char \<Rightarrow> char list \<Rightarrow> char list \<times> nat \<times> err option" where
  "readBytesFrom delim rest =
     (if length (takeWhile (\<lambda>c. c \<noteq> delim) (take bufSize rest)) < length (take bufSize rest)
      then (takeWhile (\<lambda>c. c \<noteq> delim) (take bufSize rest) @ [delim],
            length (take bufSize rest), None)
      else if length (take bufSize rest) < bufSize
      then (take bufSize rest, length (take bufSize rest), Some EOF)
      else (case readBytesFrom delim (drop bufSize rest) of
              (line, n, e) \<Rightarrow> (take bufSize rest @ line, bufSize + n, e)))"
  by pat_completeness auto
termination
  by (relation "measure (\<lambda>(delim, rest). length rest)") (auto simp: bufSize_def)

declare readBytesFrom.simps [simp del]

text \<open>
  The result of \<open>ReadBytes\<close>: the line, the error, \<^verbatim>\<open>r.Buffered()\<close> (the bytes taken
  from the file beyond the line), and the file with its offset advanced by all that was
  taken.
\<close>

definition ReadBytes :: "File \<Rightarrow> char \<Rightarrow> char list \<times> err option \<times> nat \<times> File" where
  "ReadBytes fl delim =
     (case readBytesFrom delim (drop (offset fl) (contents fl)) of
        (line, n, e) \<Rightarrow> (line, e, n - length line, fl\<lparr>offset := offset fl + n\<rparr>))"

text \<open>
  The number of bytes the reader takes from the file for a line of \<open>n\<close> bytes before
  its delimiter when \<open>m\<close> bytes follow the delimiter: whole buffers, as far as the file
  goes.
\<close>

definition readAhead :: "nat \<Rightarrow> nat \<Rightarrow> nat" where
  "readAhead n m = min (n + 1 + m) (bufSize * (n div bufSize + 1))"

text \<open>
  \<^verbatim>\<open>os.File.Write\<close> at the current offset; a gap between the end of the file and the
  offset is filled with zero bytes. Failures of the storage layer are not modelled.
\<close>

definition fileWrite :: "File \<Rightarrow> char list \<Rightarrow> File" where
  "fileWrite fl b =
     (if b = [] then fl
      else fl\<lparr>contents := take (offset fl) (contents fl)
                   @ replicate (offset fl - length (contents fl)) (CHR 0x00)
                   @ b @ drop (offset fl + length b) (contents fl),
              offset := offset fl + length b\<rparr>)"

section \<open>Text helpers of the standard library\<close>

text \<open>
  \<^verbatim>\<open>bytes.Fields\<close> splits around runs of white space as \<^verbatim>\<open>unicode.IsSpace\<close> defines it
  on the UTF-8 decoding of the input: the six ASCII characters, U+0085, U+00A0, U+1680,
  U+2000 to U+200A, U+2028, U+2029, U+202F, U+205F and U+3000. The first byte of each
  of these encodings is never a continuation byte, so it always starts a rune, and the
  scan can go byte by byte. \<open>spaceWidth\<close> is the number of bytes of the white-space rune
  at the head of the input, 0 when the head is not white space.
\<close>

definition asciiSpace :: "char \<Rightarrow> bool" where
  "asciiSpace c = (c \<in> {CHR 0x09, CHR 0x0A, CHR 0x0B, CHR 0x0C, CHR 0x0D, CHR 0x20})"

definition spaceWidth :: "char list \<Rightarrow> nat" where
  "spaceWidth xs =
     (case xs of
        [] \<Rightarrow> 0
      | c # cs \<Rightarrow>
          if asciiSpace c then 1
          else if c = CHR 0xC2 \<and> take 1 cs \<in> {[CHR 0x85], [CHR 0xA0]} then 2
          else if c = CHR 0xE1 \<and> take 2 cs = [CHR 0x9A, CHR 0x80] then 3
          else if c = CHR 0xE2 \<and> take 1 cs = [CHR 0x80] \<and>
                  take 1 (drop 1 cs) \<in> {[CHR 0x80], [CHR 0x81], [CHR 0x82], [CHR 0x83],
                    [CHR 0x84], [CHR 0x85], [CHR 0x86], [CHR 0x87], [CHR 0x88], [CHR 0x89],
                    [CHR 0x8A], [CHR 0xA8], [CHR 0xA9], [CHR 0xAF]} then 3
          else if c = CHR 0xE2 \<and> take 2 cs = [CHR 0x81, CHR 0x9F] then 3
          else if c = CHR 0xE3 \<and> take 2 cs = [CHR 0x80, CHR 0x80] then 3
          else 0)"

function fieldsLoop :: "char list \<Rightarrow> char list \<Rightarrow> char list list" where
  "fieldsLoop xs cur =
     (if xs = [] then (if cur = [] then [] else [cur])
      else if 0 < spaceWidth xs
      then (if cur = [] then [] else [cur]) @ fieldsLoop (drop (spaceWidth xs) xs) []
      else fieldsLoop (tl xs) (cur @ [hd xs]))"
  by pat_completeness auto
termination
  by (relation "measure (\<lambda>(xs, cur). length xs)") auto

declare fieldsLoop.simps [simp del]

definition Fields :: "char list \<Rightarrow> char list list" where
  "Fields b = fieldsLoop b []"

text \<open>\<^verbatim>\<open>strings.Split(s, ":")\<close>: the pieces between the separators, at least one.\<close>

fun splitOn :: "char \<Rightarrow> string \<Rightarrow> string list" where
  "splitOn d [] = [[]]"
| "splitOn d (c # cs) =
     (if c = d then [] # splitOn d cs
      else (case splitOn d cs of
              [] \<Rightarrow> [[c]]
            | p # ps \<Rightarrow> (c # p) # ps))"

text \<open>
  \<^verbatim>\<open>strconv.Atoi\<close>: an optional sign, then decimal digits scanned from the left into an
  unsigned 64-bit accumulator. A character that is not a digit, or no digit at all, is
  a syntax error; an accumulator that would overflow, or a value outside the range of
  \<^verbatim>\<open>int\<close>, is a range error.
\<close>

definition isDigit :: "char \<Rightarrow> bool" where
  "isDigit c = (48 \<le> (of_char c :: nat) \<and> (of_char c :: nat) \<le> 57)"

definition digitVal :: "char \<Rightarrow> int" where
  "digitVal c = int (of_char c) - 48"

fun parseUintLoop :: "string \<Rightarrow> string \<Rightarrow> int \<Rightarrow> int res" where
  "parseUintLoop s0 [] n = Ok n"
| "parseUintLoop s0 (c # cs) n =
     (if \<not> isDigit c then Fail (ErrSyntax s0)
      else if n \<ge> 1844674407370955162 then Fail (ErrRange s0)
      else if n * 10 + digitVal c > 18446744073709551615 then Fail (ErrRange s0)
      else parseUintLoop s0 cs (n * 10 + digitVal c))"

definition Atoi :: "string \<Rightarrow> int res" where
  "Atoi s =
     (if s = [] then Fail (ErrSyntax s)
      else
        (let neg = (hd s = CHR ''-'');
             body = (if hd s = CHR ''+'' \<or> hd s = CHR ''-'' then tl s else s)
         in if body = [] then Fail (ErrSyntax s)
            else case parseUintLoop s body 0 of
                   Ok un \<Rightarrow>
                     if \<not> neg \<and> un \<ge> 2 ^ 63 then Fail (ErrRange s)
                     else if neg \<and> un > 2 ^ 63 then Fail (ErrRange s)
                     else Ok (if neg then - un else un)
                 | Fail e \<Rightarrow> Fail e
                 | Panic p \<Rightarrow> Panic p))"

text \<open>\<^verbatim>\<open>fmt.Sprintf("%d", n)\<close>.\<close>

function digitsOf :: "nat \<Rightarrow> string" where
  "digitsOf n =
     (if n < 10 then [char_of (48 + n)]
      else digitsOf (n div 10) @ [char_of (48 + n mod 10)])"
  by pat_completeness auto
termination
  by (relation "measure (\<lambda>n. n)") auto

declare digitsOf.simps [simp del]

definition itoa :: "int \<Rightarrow> string" where
  "itoa n = (if n < 0 then CHR ''-'' # digitsOf (nat (- n)) else digitsOf (nat n))"

section \<open>Stream header\<close>

definition streamMagicString :: string where
  "streamMagicString = ''YUV4MPEG2''"

text \<open>\<^verbatim>\<open>new(Stream)\<close> on a file just opened: every field has its zero value.\<close>

definition newStream :: "File \<Rightarrow> Stream" where
  "newStream fl =
     \<lparr>osFile = fl, Stream.Width = 0, Stream.Height = 0, FrameRate = None, Interlacing = [],
      SampleAspectRatio = None, Stream.Chroma = [], Stream.Metadata = [],
      XSubsamplingFactor = 0, YSubsamplingFactor = 0, OriginalHeader = []\<rparr>"

definition stringToRatio :: "string \<Rightarrow> Ratio res" where
  "stringToRatio s =
     (let parts = splitOn (CHR '':'') s
      in if length parts \<noteq> 2 then Fail ErrRatio
         else case Atoi (parts ! 0) of
                Ok n \<Rightarrow>
                  (case Atoi (parts ! 1) of
                     Ok d \<Rightarrow> Ok \<lparr>N = n, D = d\<rparr>
                   | Fail e \<Rightarrow> Fail e
                   | Panic p \<Rightarrow> Panic p)
              | Fail e \<Rightarrow> Fail e
              | Panic p \<Rightarrow> Panic p)"

text \<open>
  \<^verbatim>\<open>(*Ratio).String\<close> under \<^verbatim>\<open>%v\<close>: package \<^verbatim>\<open>fmt\<close> prints \<^verbatim>\<open><nil>\<close> for a nil pointer
  whose \<^verbatim>\<open>String\<close> method panics.
\<close>

definition ratioString :: "Ratio option \<Rightarrow> string" where
  "ratioString r =
     (case r of
        None \<Rightarrow> ''<nil>''
      | Some q \<Rightarrow> itoa (N q) @ '':'' @ itoa (D q))"

text \<open>
  The field loop of \<open>ParseHeader\<close>. \<^verbatim>\<open>bytes.Fields\<close> never yields an empty field, so
  \<^verbatim>\<open>field[0]\<close> does not panic; the branch is there to keep the function total.
\<close>

fun parseHeaderFields :: "string list \<Rightarrow> Stream \<Rightarrow> Stream res" where
  "parseHeaderFields [] s = Ok s"
| "parseHeaderFields (field # rest) s =
     (case field of
        [] \<Rightarrow> Panic SliceBounds
      | key # val \<Rightarrow>
          if key = CHR ''Y'' then parseHeaderFields rest s
          else if key = CHR ''W'' then
            (case Atoi val of
               Ok n \<Rightarrow> parseHeaderFields rest (s\<lparr>Stream.Width := n\<rparr>)
             | Fail e \<Rightarrow> Fail e
             | Panic p \<Rightarrow> Panic p)
          else if key = CHR ''H'' then
            (case Atoi val of
               Ok n \<Rightarrow> parseHeaderFields rest (s\<lparr>Stream.Height := n\<rparr>)
             | Fail e \<Rightarrow> Fail e
             | Panic p \<Rightarrow> Panic p)
          else if key = CHR ''F'' then
            (case stringToRatio val of
               Ok ratio \<Rightarrow> parseHeaderFields rest (s\<lparr>FrameRate := Some ratio\<rparr>)
             | Fail e \<Rightarrow> Fail e
             | Panic p \<Rightarrow> Panic p)
          else if key = CHR ''I'' then parseHeaderFields rest (s\<lparr>Interlacing := val\<rparr>)
          else if key = CHR ''A'' then
            (case stringToRatio val of
               Ok ratio \<Rightarrow> parseHeaderFields rest (s\<lparr>SampleAspectRatio := Some ratio\<rparr>)
             | Fail e \<Rightarrow> Fail e
             | Panic p \<Rightarrow> Panic p)
          else if key = CHR ''C'' then parseHeaderFields rest (s\<lparr>Stream.Chroma := val\<rparr>)
          else if key = CHR ''X'' then
            parseHeaderFields rest (s\<lparr>Stream.Metadata := Stream.Metadata s @ [val]\<rparr>)
          else Fail (ErrUnrecognizedField key))"

text \<open>
  \<open>ParseHeader\<close>. On an error the source leaves the stream partly updated; \<open>Open\<close>
  discards it, and the model returns the error alone.
\<close>

definition ParseHeader :: "Stream \<Rightarrow> Stream res" where
  "ParseHeader s =
     (case Seek (osFile s) 0 0 of
        (r0, fl0) \<Rightarrow>
          (case ReadBytes fl0 (CHR 0x0A) of
             (b, e, buffered, fl1) \<Rightarrow>
               (case e of
                  Some er \<Rightarrow> Fail er
                | None \<Rightarrow>
                    (case parseHeaderFields (Fields b)
                            (s\<lparr>osFile := fl1, OriginalHeader := b, Stream.Chroma := ''420jpeg'',
                               Interlacing := ''?'', FrameRate := Some \<lparr>N = 0, D = 0\<rparr>,
                               SampleAspectRatio := Some \<lparr>N = 0, D = 0\<rparr>\<rparr>) of
                       Ok s1 \<Rightarrow>
                         Ok (s1\<lparr>osFile := snd (Seek (osFile s1) (int (length (OriginalHeader s1))) 0)\<rparr>)
                     | Fail er \<Rightarrow> Fail er
                     | Panic p \<Rightarrow> Panic p))))"

text \<open>
  \<open>IsY4M\<close> reads into a buffer of nine zero bytes; a file shorter than that leaves the
  rest of the buffer zero.
\<close>

definition IsY4M :: "Stream \<Rightarrow> unit res \<times> Stream" where
  "IsY4M s =
     (let fl = osFile s;
          got = take (length streamMagicString) (drop (offset fl) (contents fl));
          sb = got @ replicate (length streamMagicString - length got) (CHR 0x00);
          s1 = s\<lparr>osFile := fl\<lparr>offset := offset fl + length got\<rparr>\<rparr>
      in if got = [] then (Fail EOF, s1)
         else if sb \<noteq> streamMagicString then (Fail ErrInvalidFormat, s1)
         else (case Seek (osFile s1) 0 0 of
                 (Ok n, fl') \<Rightarrow> (Ok (), s1\<lparr>osFile := fl'\<rparr>)
               | (Fail e, fl') \<Rightarrow> (Fail e, s1\<lparr>osFile := fl'\<rparr>)
               | (Panic p, fl') \<Rightarrow> (Panic p, s1\<lparr>osFile := fl'\<rparr>)))"

text \<open>
  \<open>Open\<close> on a file that exists, given by its bytes; \<^verbatim>\<open>os.Open\<close> puts the offset at 0.
\<close>

definition Open :: "char list \<Rightarrow> Stream res" where
  "Open bytes =
     (case IsY4M (newStream \<lparr>contents = bytes, offset = 0\<rparr>) of
        (Ok u, s) \<Rightarrow>
          (case ParseHeader s of
             Ok s1 \<Rightarrow>
               Ok (s1\<lparr>XSubsamplingFactor := xSubsamplingFactor (Stream.Chroma s1),
                      YSubsamplingFactor := ySubsamplingFactor (Stream.Chroma s1)\<rparr>)
           | Fail e \<Rightarrow> Fail e
           | Panic p \<Rightarrow> Panic p)
      | (Fail e, s) \<Rightarrow> Fail e
      | (Panic p, s) \<Rightarrow> Panic p)"

definition Header :: "Stream \<Rightarrow> char list" where
  "Header s =
     streamMagicString
     @ '' W'' @ itoa (Stream.Width s)
     @ '' H'' @ itoa (Stream.Height s)
     @ '' C'' @ Stream.Chroma s
     @ '' I'' @ Interlacing s
     @ '' F'' @ ratioString (FrameRate s)
     @ '' A'' @ ratioString (SampleAspectRatio s)
     @ concat (map (\<lambda>m. '' X'' @ m) (Stream.Metadata s))
     @ [CHR 0x0A]"

section \<open>Frame traversal\<close>

definition ToFirstFrame :: "Stream \<Rightarrow> unit res \<times> Stream" where
  "ToFirstFrame s =
     (case Seek (osFile s) 0 0 of
        (Fail e, fl) \<Rightarrow> (Fail e, s\<lparr>osFile := fl\<rparr>)
      | (Panic p, fl) \<Rightarrow> (Panic p, s\<lparr>osFile := fl\<rparr>)
      | (Ok n, fl) \<Rightarrow>
          (case ReadBytes fl (CHR 0x0A) of
             (b, e, buffered, fl1) \<Rightarrow>
               (case e of
                  Some er \<Rightarrow> (Fail er, s\<lparr>osFile := fl1\<rparr>)
                | None \<Rightarrow>
                    (case Seek fl1 (- int buffered) 1 of
                       (Ok n', fl2) \<Rightarrow> (Ok (), s\<lparr>osFile := fl2\<rparr>)
                     | (Fail er, fl2) \<Rightarrow> (Fail er, s\<lparr>osFile := fl2\<rparr>)
                     | (Panic p, fl2) \<Rightarrow> (Panic p, s\<lparr>osFile := fl2\<rparr>)))))"

text \<open>
  \<open>SkipFrameHeader\<close>. \<^verbatim>\<open>b[0:5]\<close> and \<^verbatim>\<open>b[0:15]\<close> are slice expressions on the line
  read, which \<^verbatim>\<open>ReadBytes\<close> allocates with capacity equal to its length. The error
  returns come before the \<^verbatim>\<open>Seek\<close> that steps back over the buffered bytes.
\<close>

definition SkipFrameHeader :: "Stream \<Rightarrow> unit res \<times> Stream" where
  "SkipFrameHeader s =
     (case ReadBytes (osFile s) (CHR 0x0A) of
        (b, e, buffered, fl1) \<Rightarrow>
          (case e of
             Some er \<Rightarrow> (Fail er, s\<lparr>osFile := fl1\<rparr>)
           | None \<Rightarrow>
               (case sliceOf b 0 5 of
                  Panic p \<Rightarrow> (Panic p, s\<lparr>osFile := fl1\<rparr>)
                | Fail er \<Rightarrow> (Fail er, s\<lparr>osFile := fl1\<rparr>)
                | Ok magicString \<Rightarrow>
                    if magicString \<noteq> ''FRAME'' then
                      (case sliceOf b 0 15 of
                         Panic p \<Rightarrow> (Panic p, s\<lparr>osFile := fl1\<rparr>)
                       | Fail er \<Rightarrow> (Fail er, s\<lparr>osFile := fl1\<rparr>)
                       | Ok found \<Rightarrow> (Fail (ErrSkipMagic found), s\<lparr>osFile := fl1\<rparr>))
                    else
                      (case Seek fl1 (- int buffered) 1 of
                         (Ok n', fl2) \<Rightarrow> (Ok (), s\<lparr>osFile := fl2\<rparr>)
                       | (Fail er, fl2) \<Rightarrow> (Fail er, s\<lparr>osFile := fl2\<rparr>)
                       | (Panic p, fl2) \<Rightarrow> (Panic p, s\<lparr>osFile := fl2\<rparr>)))))"

definition SkipFrame :: "Stream \<Rightarrow> unit res \<times> Stream" where
  "SkipFrame s =
     (case SkipFrameHeader s of
        (Fail e, s1) \<Rightarrow> (Fail e, s1)
      | (Panic p, s1) \<Rightarrow> (Panic p, s1)
      | (Ok u, s1) \<Rightarrow>
          (case FrameImageDataSize s1 of
             Panic p \<Rightarrow> (Panic p, s1)
           | Fail e \<Rightarrow> (Fail e, s1)
           | Ok n \<Rightarrow>
               (case Seek (osFile s1) n 1 of
                  (Ok n', fl) \<Rightarrow> (Ok (), s1\<lparr>osFile := fl\<rparr>)
                | (Fail e, fl) \<Rightarrow> (Fail e, s1\<lparr>osFile := fl\<rparr>)
                | (Panic p, fl) \<Rightarrow> (Panic p, s1\<lparr>osFile := fl\<rparr>))))"

text \<open>The field loop of \<open>ParseFrameHeader\<close>, over the fields after the magic string.\<close>

fun parseFrameFields :: "string list \<Rightarrow> FrameHeader \<Rightarrow> FrameHeader res" where
  "parseFrameFields [] h = Ok h"
| "parseFrameFields (field # rest) h =
     (case field of
        [] \<Rightarrow> Panic SliceBounds
      | key # val \<Rightarrow>
          if key = CHR ''I'' then
            (if length val \<noteq> 3 then Fail ErrIFieldLength
             else
               (let x = val ! 0; y = val ! 1; z = val ! 2
                in if x \<noteq> CHR ''t'' \<and> x \<noteq> CHR ''T'' \<and> x \<noteq> CHR ''b'' \<and> x \<noteq> CHR ''B'' \<and>
                      x \<noteq> CHR ''1'' \<and> x \<noteq> CHR ''2'' \<and> x \<noteq> CHR ''3''
                   then Fail (ErrPresentation x)
                   else if y \<noteq> CHR ''p'' \<and> y \<noteq> CHR ''i'' then Fail (ErrTemporal y)
                   else if z \<noteq> CHR ''p'' \<and> z \<noteq> CHR ''i'' \<and> z \<noteq> CHR ''?''
                   then Fail (ErrSpatial z)
                   else parseFrameFields rest
                          (h\<lparr>I := Some \<lparr>Spatial = z, Temporal = y, Presentation = x\<rparr>\<rparr>)))
          else if key = CHR ''X'' then
            parseFrameFields rest (h\<lparr>FrameHeader.Metadata := FrameHeader.Metadata h @ [val]\<rparr>)
          else parseFrameFields rest h)"

text \<open>
  \<open>ParseFrameHeader\<close>. The error of the final \<^verbatim>\<open>Seek\<close> is assigned and not returned.
\<close>

definition ParseFrameHeader :: "Stream \<Rightarrow> FrameHeader res \<times> Stream" where
  "ParseFrameHeader s =
     (case ReadBytes (osFile s) (CHR 0x0A) of
        (hs, e, buffered, fl1) \<Rightarrow>
          (case e of
             Some er \<Rightarrow> (Fail er, s\<lparr>osFile := fl1\<rparr>)
           | None \<Rightarrow>
               (case Fields hs of
                  [] \<Rightarrow> (Fail ErrNoFrameHeader, s\<lparr>osFile := fl1\<rparr>)
                | magicString # rest \<Rightarrow>
                    if magicString = ''FRAME'' then
                      (case parseFrameFields rest
                              \<lparr>MagicString = magicString, I = None,
                               FrameHeader.Metadata = [], Raw = hs\<rparr> of
                         Ok h \<Rightarrow> (Ok h, s\<lparr>osFile := snd (Seek fl1 (- int buffered) 1)\<rparr>)
                       | Fail er \<Rightarrow> (Fail er, s\<lparr>osFile := fl1\<rparr>)
                       | Panic p \<Rightarrow> (Panic p, s\<lparr>osFile := fl1\<rparr>))
                    else (Fail ErrParseMagic, s\<lparr>osFile := fl1\<rparr>))))"

definition grabPlane :: "Stream \<Rightarrow> int \<Rightarrow> char list res \<times> Stream" where
  "grabPlane s n =
     (if n = 0 then (Ok [], s)
      else if n < 0 then (Panic MakeSliceRange, s)
      else case ReadFull (osFile s) (nat n) of
             (r, fl) \<Rightarrow> (r, s\<lparr>osFile := fl\<rparr>))"

text \<open>Sequencing of two steps on the stream: an error or a panic of the first ends the call.\<close>

definition thenS ::
  "'a res \<times> Stream \<Rightarrow> ('a \<Rightarrow> Stream \<Rightarrow> 'b res \<times> Stream) \<Rightarrow> 'b res \<times> Stream" where
  "thenS m k =
     (case m of
        (Ok x, s) \<Rightarrow> k x s
      | (Fail e, s) \<Rightarrow> (Fail e, s)
      | (Panic p, s) \<Rightarrow> (Panic p, s))"

definition ParseFrame :: "Stream \<Rightarrow> Frame res \<times> Stream" where
  "ParseFrame s =
     thenS (ParseFrameHeader s) (\<lambda>header s1.
     thenS (grabPlane s1 (LumaPlaneSize s1)) (\<lambda>y s2.
     thenS (ChromaPlaneSize s2, s2) (\<lambda>csize s3.
     thenS (grabPlane s3 csize) (\<lambda>cb s4.
     thenS (ChromaPlaneSize s4, s4) (\<lambda>csize' s5.
     thenS (grabPlane s5 csize') (\<lambda>cr s6.
     thenS (grabPlane s6 (AlphaPlaneSize s6)) (\<lambda>alpha s7.
       (Ok \<lparr>Frame.Header = Some header, Frame.Width = Stream.Width s7,
            Frame.Height = Stream.Height s7, Frame.Chroma = Stream.Chroma s7,
            Y = y, Cb = cb, Cr = cr, Alpha = alpha\<rparr>, s7))))))))"

text \<open>
  The loop of \<open>CountFrames\<close>. Nothing in the source bounds it: with a negative frame
  size \<open>SkipFrame\<close> steps backwards, so the loop is a partial function and \<open>None\<close> stands
  for a call that does not return.
\<close>

partial_function (option) countFramesLoop :: "Stream \<Rightarrow> int \<Rightarrow> (int res \<times> Stream) option" where
  "countFramesLoop s frameCounter =
     (case SkipFrame s of
        (Fail e, s1) \<Rightarrow> if e = EOF then Some (Ok frameCounter, s1) else Some (Fail e, s1)
      | (Panic p, s1) \<Rightarrow> Some (Panic p, s1)
      | (Ok u, s1) \<Rightarrow> countFramesLoop s1 (add64 frameCounter 1))"

declare countFramesLoop.simps [code]

text \<open>
  \<open>CountFrames\<close>. \<open>Fail e\<close> stands for the return \<^verbatim>\<open>(-1, err)\<close>. Only the path that
  leaves the loop at \<^verbatim>\<open>io.EOF\<close> reaches the \<^verbatim>\<open>Seek(initPos, 0)\<close>.
\<close>

definition CountFrames :: "Stream \<Rightarrow> (int res \<times> Stream) option" where
  "CountFrames s =
     (case Seek (osFile s) 0 1 of
        (Fail e, fl) \<Rightarrow> Some (Fail e, s\<lparr>osFile := fl\<rparr>)
      | (Panic p, fl) \<Rightarrow> Some (Panic p, s\<lparr>osFile := fl\<rparr>)
      | (Ok initPos, fl) \<Rightarrow>
          (case Seek fl 0 0 of
             (Fail e, fl1) \<Rightarrow> Some (Fail e, s\<lparr>osFile := fl1\<rparr>)
           | (Panic p, fl1) \<Rightarrow> Some (Panic p, s\<lparr>osFile := fl1\<rparr>)
           | (Ok n, fl1) \<Rightarrow>
               (case ToFirstFrame (s\<lparr>osFile := fl1\<rparr>) of
                  (Fail e, s2) \<Rightarrow> Some (Fail e, s2)
                | (Panic p, s2) \<Rightarrow> Some (Panic p, s2)
                | (Ok u, s2) \<Rightarrow>
                    (case countFramesLoop s2 0 of
                       None \<Rightarrow> None
                     | Some (Fail e, s3) \<Rightarrow> Some (Fail e, s3)
                     | Some (Panic p, s3) \<Rightarrow> Some (Panic p, s3)
                     | Some (Ok frameCounter, s3) \<Rightarrow>
                         (case Seek (osFile s3) initPos 0 of
                            (Fail e, fl4) \<Rightarrow> Some (Fail e, s3\<lparr>osFile := fl4\<rparr>)
                          | (Panic p, fl4) \<Rightarrow> Some (Panic p, s3\<lparr>osFile := fl4\<rparr>)
                          | (Ok n', fl4) \<Rightarrow> Some (Ok frameCounter, s3\<lparr>osFile := fl4\<rparr>))))))"

section \<open>Writing\<close>

text \<open>\<open>NewStream\<close> on a file just created: empty, offset 0, every other field zero.\<close>

definition NewStream :: "int \<Rightarrow> int \<Rightarrow> Stream" where
  "NewStream w h =
     (newStream \<lparr>contents = [], offset = 0\<rparr>)\<lparr>Stream.Width := w, Stream.Height := h\<rparr>"

definition WriteHeader :: "Stream \<Rightarrow> Stream" where
  "WriteHeader s = s\<lparr>osFile := fileWrite (osFile s) (Header s)\<rparr>"

definition WriteFrameHeader :: "Stream \<Rightarrow> Frame \<Rightarrow> unit res \<times> Stream" where
  "WriteFrameHeader s frame =
     (case Frame.Header frame of
        None \<Rightarrow> (Panic NilDereference, s)
      | Some h \<Rightarrow> (Ok (), s\<lparr>osFile := fileWrite (osFile s) (Raw h)\<rparr>))"

definition WriteFrameData :: "Stream \<Rightarrow> Frame \<Rightarrow> Stream" where
  "WriteFrameData s frame =
     s\<lparr>osFile := fileWrite (fileWrite (fileWrite (fileWrite (osFile s) (Y frame)) (Cb frame))
                   (Cr frame)) (Alpha frame)\<rparr>"

section \<open>Notions used to state the properties\<close>

text \<open>
  The bytes of the file from the cursor on, the fields of a stream that decide its plane
  sizes, and the stream with its cursor moved forward by \<open>k\<close> bytes.
\<close>

definition remaining :: "Stream \<Rightarrow> char list" where
  "remaining s = drop (offset (osFile s)) (contents (osFile s))"

definition geom :: "Stream \<Rightarrow> int \<times> int \<times> string \<times> int \<times> int" where
  "geom s = (Stream.Width s, Stream.Height s, Stream.Chroma s,
             XSubsamplingFactor s, YSubsamplingFactor s)"

definition advance :: "Stream \<Rightarrow> nat \<Rightarrow> Stream" where
  "advance s k = s\<lparr>osFile := (osFile s)\<lparr>offset := offset (osFile s) + k\<rparr>\<rparr>"

text \<open>
  A field as \<^verbatim>\<open>bytes.Fields\<close> yields it: not empty, and with no white space in it when
  a space follows. The fields that \<open>Header\<close> writes after the magic string.
\<close>

definition isToken :: "char list \<Rightarrow> bool" where
  "isToken t =
     (t \<noteq> [] \<and> list_all (\<lambda>i. spaceWidth (drop i t @ [CHR 0x20]) = 0) [0..<length t])"

definition headerFields :: "Stream \<Rightarrow> char list list" where
  "headerFields s =
     [CHR ''W'' # itoa (Stream.Width s), CHR ''H'' # itoa (Stream.Height s),
      CHR ''C'' # Stream.Chroma s, CHR ''I'' # Interlacing s,
      CHR ''F'' # ratioString (FrameRate s), CHR ''A'' # ratioString (SampleAspectRatio s)]
     @ map (\<lambda>m. CHR ''X'' # m) (Stream.Metadata s)"

text \<open>
  The state of a stream that \<open>Header\<close> writes so that it reads back: both ratios are
  set, the numbers are values of \<^verbatim>\<open>int\<close>, and the chroma tag, the interlacing code
  and the metadata entries are free of white space.
\<close>

definition inInt64 :: "int \<Rightarrow> bool" where
  "inInt64 n = (- (2 ^ 63) \<le> n \<and> n < 2 ^ 63)"

definition ratioInRange :: "Ratio option \<Rightarrow> bool" where
  "ratioInRange r = (case r of None \<Rightarrow> False | Some q \<Rightarrow> inInt64 (N q) \<and> inInt64 (D q))"

definition serializable :: "Stream \<Rightarrow> bool" where
  "serializable s =
     (inInt64 (Stream.Width s) \<and> inInt64 (Stream.Height s) \<and>
      ratioInRange (FrameRate s) \<and> ratioInRange (SampleAspectRatio s) \<and>
      isToken (CHR ''C'' # Stream.Chroma s) \<and> isToken (CHR ''I'' # Interlacing s) \<and>
      list_all (\<lambda>m. isToken (CHR ''X'' # m)) (Stream.Metadata s))"

text \<open>
  The crop of a plane in the words of the specification: \<open>h\<close> rows of \<open>w\<close> bytes, row
  \<open>y\<close> taken from source row \<open>y + yOffset\<close> starting at column \<open>xOffset\<close>, with \<open>stride\<close>
  bytes per source row.
\<close>

definition specCropRows :: "char list \<Rightarrow> int \<Rightarrow> int \<Rightarrow> int \<Rightarrow> int \<Rightarrow> int \<Rightarrow> char list" where
  "specCropRows src stride w h xOffset yOffset =
     concat (map (\<lambda>y. take (nat w) (drop (nat ((y + yOffset) * stride + xOffset)) src))
               [0..h - 1])"

text \<open>
  The rows that the chroma loop of \<open>Crop\<close> copies when no slice is out of range: row \<open>y\<close>
  has \<open>w div xss\<close> bytes from index \<open>((y + yOffset div yss) * width) div xss + xOffset div xss\<close>.
\<close>

definition chromaCropRows ::
  "char list \<Rightarrow> int \<Rightarrow> int \<Rightarrow> int \<Rightarrow> int \<Rightarrow> int \<Rightarrow> int \<Rightarrow> int \<Rightarrow> char list" where
  "chromaCropRows src width xss yss w h xOffset yOffset =
     concat (map (\<lambda>y. take (nat (w div xss))
                        (drop (nat (((y + yOffset div yss) * width) div xss + xOffset div xss)) src))
               [0..h div yss - 1])"

text \<open>
  The width and height of a frame are non-negative, their product is in the range of
  \<^verbatim>\<open>int\<close>, and each plane holds at least the bytes of the frame's geometry (the alpha
  plane when there is one).
\<close>

definition planesCover :: "Frame \<Rightarrow> bool" where
  "planesCover f =
     (0 \<le> Frame.Width f \<and> Frame.Width f < 2 ^ 63 \<and>
      0 \<le> Frame.Height f \<and> Frame.Height f < 2 ^ 63 \<and>
      Frame.Width f * Frame.Height f < 2 ^ 63 \<and>
      Frame.Width f * Frame.Height f \<le> int (length (Y f)) \<and>
      (Frame.Width f * Frame.Height f) div xSubsamplingFactor (Frame.Chroma f)
         div ySubsamplingFactor (Frame.Chroma f) \<le> int (length (Cb f)) \<and>
      (Frame.Width f * Frame.Height f) div xSubsamplingFactor (Frame.Chroma f)
         div ySubsamplingFactor (Frame.Chroma f) \<le> int (length (Cr f)) \<and>
      (Alpha f = [] \<or> Frame.Width f * Frame.Height f \<le> int (length (Alpha f))))"

text \<open>
  The width and height of a frame are non-negative values of \<^verbatim>\<open>int\<close> whose product does
  not overflow.
\<close>

definition dimsInRange :: "Frame \<Rightarrow> bool" where
  "dimsInRange f =
     (0 \<le> Frame.Width f \<and> Frame.Width f < 2 ^ 63 \<and>
      0 \<le> Frame.Height f \<and> Frame.Height f < 2 ^ 63 \<and>
      Frame.Width f * Frame.Height f < 2 ^ 63)"

text \<open>A crop request with non-negative sizes and offsets that lies within the frame.\<close>

definition cropInBounds :: "Frame \<Rightarrow> int \<Rightarrow> int \<Rightarrow> int \<Rightarrow> int \<Rightarrow> bool" where
  "cropInBounds f w h xOffset yOffset =
     (0 \<le> w \<and> 0 \<le> h \<and> 0 \<le> xOffset \<and> 0 \<le> yOffset \<and>
      w + xOffset \<le> Frame.Width f \<and> h + yOffset \<le> Frame.Height f)"

section \<open>The frame invariant and sample data\<close>

text \<open>
  The plane sizes of a frame are those of \<open>LumaPlaneSize\<close>, \<open>ChromaPlaneSize\<close> and
  \<open>AlphaPlaneSize\<close> on a stream that has the frame's own width, height and chroma tag,
  with the subsampling factors that \<open>Open\<close> derives from the tag.
\<close>

definition geometryOf :: "Frame \<Rightarrow> Stream" where
  "geometryOf f =
     (newStream \<lparr>contents = [], offset = 0\<rparr>)
       \<lparr>Stream.Width := Frame.Width f, Stream.Height := Frame.Height f,
        Stream.Chroma := Frame.Chroma f,
        XSubsamplingFactor := xSubsamplingFactor (Frame.Chroma f),
        YSubsamplingFactor := ySubsamplingFactor (Frame.Chroma f)\<rparr>"

definition frameInvariant :: "Frame \<Rightarrow> bool" where
  "frameInvariant f =
     (int (length (Y f)) = LumaPlaneSize (geometryOf f) \<and>
      ChromaPlaneSize (geometryOf f) = Ok (int (length (Cb f))) \<and>
      ChromaPlaneSize (geometryOf f) = Ok (int (length (Cr f))) \<and>
      int (length (Alpha f)) = AlphaPlaneSize (geometryOf f))"

text \<open>The factors of a stream agree with its chroma tag, as \<open>Open\<close> leaves them.\<close>

definition factorsConsistent :: "Stream \<Rightarrow> bool" where
  "factorsConsistent s =
     (XSubsamplingFactor s = xSubsamplingFactor (Stream.Chroma s) \<and>
      YSubsamplingFactor s = ySubsamplingFactor (Stream.Chroma s))"

definition exampleFrame444 :: Frame where
  "exampleFrame444 =
     \<lparr>Frame.Header = None, Frame.Width = 4, Frame.Height = 2, Frame.Chroma = ''444'',
      Y = [CHR 0x00, CHR 0x01, CHR 0x02, CHR 0x03, CHR 0x04, CHR 0x05, CHR 0x06, CHR 0x07],
      Cb = ''abcdefgh'', Cr = ''ijklmnop'', Alpha = []\<rparr>"

definition exampleFrame422 :: Frame where
  "exampleFrame422 =
     \<lparr>Frame.Header = None, Frame.Width = 4, Frame.Height = 2, Frame.Chroma = ''422'',
      Y = ''01234567'', Cb = ''abcd'', Cr = ''ijkl'', Alpha = []\<rparr>"

definition exampleFrameAlpha :: Frame where
  "exampleFrameAlpha =
     \<lparr>Frame.Header = None, Frame.Width = 4, Frame.Height = 2, Frame.Chroma = ''444alpha'',
      Y = ''01234567'', Cb = ''abcdefgh'', Cr = ''ijklmnop'', Alpha = ''qrstuvwx''\<rparr>"

definition exampleHeaderAlpha :: "char list" where
  "exampleHeaderAlpha = ''YUV4MPEG2 W4 H2 C444alpha'' @ [CHR 0x0A]"

definition exampleStreamAlpha :: Stream where
  "exampleStreamAlpha =
     \<lparr>osFile = \<lparr>contents = exampleHeaderAlpha, offset = 26\<rparr>,
      Stream.Width = 4, Stream.Height = 2, FrameRate = Some \<lparr>N = 0, D = 0\<rparr>,
      Interlacing = ''?'', SampleAspectRatio = Some \<lparr>N = 0, D = 0\<rparr>,
      Stream.Chroma = ''444alpha'', Stream.Metadata = [],
      XSubsamplingFactor = 0, YSubsamplingFactor = 0,
      OriginalHeader = exampleHeaderAlpha\<rparr>"

definition exampleHeaderMono :: "char list" where
  "exampleHeaderMono = ''YUV4MPEG2 W4 H2 Cmono'' @ [CHR 0x0A]"

definition exampleStreamMono :: Stream where
  "exampleStreamMono =
     \<lparr>osFile = \<lparr>contents = exampleHeaderMono, offset = 22\<rparr>,
      Stream.Width = 4, Stream.Height = 2, FrameRate = Some \<lparr>N = 0, D = 0\<rparr>,
      Interlacing = ''?'', SampleAspectRatio = Some \<lparr>N = 0, D = 0\<rparr>,
      Stream.Chroma = ''mono'', Stream.Metadata = [],
      XSubsamplingFactor = 0, YSubsamplingFactor = 0,
      OriginalHeader = exampleHeaderMono\<rparr>"

text \<open>
  A 4 by 2 stream with chroma 444 as \<open>Open\<close> leaves it, with the given bytes after the
  header line and the given offset; one well-formed frame of that stream; a line that is
  not a frame header.
\<close>

definition exampleHeaderText :: "char list" where
  "exampleHeaderText = ''YUV4MPEG2 W4 H2 C444''"

definition exampleHeader444 :: "char list" where
  "exampleHeader444 = exampleHeaderText @ [CHR 0x0A]"

definition exampleStream444 :: "char list \<Rightarrow> nat \<Rightarrow> Stream" where
  "exampleStream444 body off =
     \<lparr>osFile = \<lparr>contents = exampleHeader444 @ body, offset = off\<rparr>,
      Stream.Width = 4, Stream.Height = 2, FrameRate = Some \<lparr>N = 0, D = 0\<rparr>,
      Interlacing = ''?'', SampleAspectRatio = Some \<lparr>N = 0, D = 0\<rparr>,
      Stream.Chroma = ''444'', Stream.Metadata = [],
      XSubsamplingFactor = 1, YSubsamplingFactor = 1,
      OriginalHeader = exampleHeader444\<rparr>"

definition exampleFrameBytes :: "char list" where
  "exampleFrameBytes = ''FRAME'' @ [CHR 0x0A] @ ''01234567'' @ ''abcdefgh'' @ ''ijklmnop''"

definition exampleFrameHeader :: FrameHeader where
  "exampleFrameHeader =
     \<lparr>MagicString = ''FRAME'', I = None, FrameHeader.Metadata = [],
      Raw = ''FRAME'' @ [CHR 0x0A]\<rparr>"

definition exampleFrameRead :: Frame where
  "exampleFrameRead =
     \<lparr>Frame.Header = Some exampleFrameHeader, Frame.Width = 4, Frame.Height = 2,
      Frame.Chroma = ''444'', Y = ''01234567'', Cb = ''abcdefgh'', Cr = ''ijklmnop'',
      Alpha = []\<rparr>"

definition exampleBadText :: "char list" where
  "exampleBadText = ''GARBAGEGARBAGEGARBAGE''"

definition exampleBadLine :: "char list" where
  "exampleBadLine = exampleBadText @ [CHR 0x0A]"

section \<open>Properties of Crop\<close>



section \<open>Chroma tags outside the subsampling tables\<close>

lemma Open_factorsConsistent: "Open bytes = Ok s \<Longrightarrow> factorsConsistent s"
  by (auto simp: Open_def factorsConsistent_def split: prod.splits res.splits)

lemma not_in_table_zero:
  "\<not> inSubsamplingTable c \<Longrightarrow> xSubsamplingFactor c = 0 \<and> ySubsamplingFactor c = 0"
  by (auto simp: inSubsamplingTable_def xSubsamplingFactor_def ySubsamplingFactor_def
      xSubsamplingTable_def ySubsamplingTable_def)

lemma mono_alpha_not_in_table:
  "\<not> inSubsamplingTable ''mono''" "\<not> inSubsamplingTable ''444alpha''"
  by (simp_all add: inSubsamplingTable_def xSubsamplingTable_def)

lemma cropChroma_zero:
  "xSubsamplingFactor (Frame.Chroma f) = 0 \<Longrightarrow>
   cropChroma f w h xOffset yOffset = Panic DivideByZero"
  by (simp add: cropChroma_def chromaCap_def divGo_def)

lemma Crop_zero_never_Ok:
  "xSubsamplingFactor (Frame.Chroma f) = 0 \<Longrightarrow> fst (Crop f w h xOffset yOffset) \<noteq> Ok ()"
  by (auto simp: Crop_def cropChroma_zero split: res.splits)

lemma Crop_zero_panics:
  "xSubsamplingFactor (Frame.Chroma f) = 0 \<Longrightarrow>
   add64 w xOffset \<le> Frame.Width f \<Longrightarrow> add64 h yOffset \<le> Frame.Height f \<Longrightarrow>
   cropPlane (Y f) (Frame.Width f) w h xOffset yOffset = Ok newY \<Longrightarrow>
   Crop f w h xOffset yOffset = (Panic DivideByZero, f\<lparr>Y := newY\<rparr>)"
  by (auto simp: Crop_def cropChroma_zero split: res.splits)

lemma ChromaPlaneSize_zero_factor:
  "Stream.Chroma s \<noteq> ''mono'' \<Longrightarrow> XSubsamplingFactor s = 0 \<Longrightarrow>
   ChromaPlaneSize s = Panic DivideByZero"
  by (simp add: ChromaPlaneSize_def divGo_def)

lemma Open_exampleHeaderAlpha: "Open exampleHeaderAlpha = Ok exampleStreamAlpha"
  by code_simp

lemma Open_exampleHeaderMono: "Open exampleHeaderMono = Ok exampleStreamMono"
  by code_simp

text \<open>
  C10. The tags \<open>mono\<close> and \<open>444alpha\<close> are not keys of the subsampling tables, so their
  factors are 0. \<open>Crop\<close> on a frame with either tag never returns normally: a request
  that passes the two bounds checks and copies its luma rows panics with a division by
  zero when it computes \<^verbatim>\<open>w/xss\<close> for the new chroma planes, the luma plane already
  replaced. \<open>ChromaPlaneSize\<close> on an opened \<open>444alpha\<close> stream panics with a division by
  zero; on an opened \<open>mono\<close> stream the guard returns 0 before any division.
\<close>

theorem missing_tags_divide_by_zero:
  "c = ''mono'' \<or> c = ''444alpha'' \<Longrightarrow>
   \<not> inSubsamplingTable c \<and> xSubsamplingFactor c = 0 \<and> ySubsamplingFactor c = 0 \<and>
   (Frame.Chroma f = c \<longrightarrow>
      fst (Crop f w h xOffset yOffset) \<noteq> Ok () \<and>
      (add64 w xOffset \<le> Frame.Width f \<and> add64 h yOffset \<le> Frame.Height f \<and>
       cropPlane (Y f) (Frame.Width f) w h xOffset yOffset = Ok newY \<longrightarrow>
         Crop f w h xOffset yOffset = (Panic DivideByZero, f\<lparr>Y := newY\<rparr>))) \<and>
   (Open bytes = Ok s \<and> Stream.Chroma s = ''444alpha'' \<longrightarrow>
      ChromaPlaneSize s = Panic DivideByZero) \<and>
   (Open bytes = Ok s \<and> Stream.Chroma s = ''mono'' \<longrightarrow> ChromaPlaneSize s = Ok 0)"
proof -
  assume c: "c = ''mono'' \<or> c = ''444alpha''"
  then have nt: "\<not> inSubsamplingTable c"
    using mono_alpha_not_in_table by auto
  then have z: "xSubsamplingFactor c = 0 \<and> ySubsamplingFactor c = 0"
    by (rule not_in_table_zero)
  have crop: "Frame.Chroma f = c \<longrightarrow>
      fst (Crop f w h xOffset yOffset) \<noteq> Ok () \<and>
      (add64 w xOffset \<le> Frame.Width f \<and> add64 h yOffset \<le> Frame.Height f \<and>
       cropPlane (Y f) (Frame.Width f) w h xOffset yOffset = Ok newY \<longrightarrow>
         Crop f w h xOffset yOffset = (Panic DivideByZero, f\<lparr>Y := newY\<rparr>))"
    using z Crop_zero_never_Ok Crop_zero_panics by blast
  have alpha: "Open bytes = Ok s \<and> Stream.Chroma s = ''444alpha'' \<longrightarrow>
      ChromaPlaneSize s = Panic DivideByZero"
  proof
    assume a: "Open bytes = Ok s \<and> Stream.Chroma s = ''444alpha''"
    then have "XSubsamplingFactor s = xSubsamplingFactor ''444alpha''"
      using Open_factorsConsistent [of bytes s] by (simp add: factorsConsistent_def)
    then have "XSubsamplingFactor s = 0"
      using not_in_table_zero [OF mono_alpha_not_in_table(2)] by simp
    with a show "ChromaPlaneSize s = Panic DivideByZero"
      by (simp add: ChromaPlaneSize_zero_factor)
  qed
  have mono: "Open bytes = Ok s \<and> Stream.Chroma s = ''mono'' \<longrightarrow> ChromaPlaneSize s = Ok 0"
    by (simp add: ChromaPlaneSize_def)
  from nt z crop alpha mono show ?thesis by blast
qed

theorem missing_tags_divide_by_zero_witness:
  "(''444alpha'' = ''mono'' \<or> ''444alpha'' = ''444alpha'') \<and>
   Frame.Chroma exampleFrameAlpha = ''444alpha'' \<and>
   add64 2 1 \<le> Frame.Width exampleFrameAlpha \<and> add64 1 0 \<le> Frame.Height exampleFrameAlpha \<and>
   cropPlane (Y exampleFrameAlpha) (Frame.Width exampleFrameAlpha) 2 1 1 0 = Ok ''12'' \<and>
   Crop exampleFrameAlpha 2 1 1 0 = (Panic DivideByZero, exampleFrameAlpha\<lparr>Y := ''12''\<rparr>) \<and>
   Open exampleHeaderAlpha = Ok exampleStreamAlpha \<and>
   Stream.Chroma exampleStreamAlpha = ''444alpha'' \<and>
   ChromaPlaneSize exampleStreamAlpha = Panic DivideByZero"
proof -
  have c: "''444alpha'' = ''mono'' \<or> ''444alpha'' = ''444alpha''" by simp
  have b: "add64 2 1 \<le> Frame.Width exampleFrameAlpha \<and>
           add64 1 0 \<le> Frame.Height exampleFrameAlpha"
    by (simp add: exampleFrameAlpha_def add64_def wrap64_def)
  have p: "cropPlane (Y exampleFrameAlpha) (Frame.Width exampleFrameAlpha) 2 1 1 0 = Ok ''12''"
    by code_simp
  have t: "Frame.Chroma exampleFrameAlpha = ''444alpha''"
    by (simp add: exampleFrameAlpha_def)
  have s: "Stream.Chroma exampleStreamAlpha = ''444alpha''"
    by (simp add: exampleStreamAlpha_def)
  show ?thesis
    using missing_tags_divide_by_zero
            [OF c, of exampleFrameAlpha 2 1 1 0 "''12''" exampleHeaderAlpha exampleStreamAlpha]
          b p t s Open_exampleHeaderAlpha
    by simp
qed




section \<open>Reading lines and planes\<close>

lemma readBytesFrom_eof:
  "d \<notin> set xs \<Longrightarrow> readBytesFrom d xs = (xs, length xs, Some EOF)"
proof (induction "length xs" arbitrary: xs rule: less_induct)
  case less
  have tw: "takeWhile (\<lambda>c. c \<noteq> d) (take bufSize xs) = take bufSize xs"
    using less.prems by (auto simp: takeWhile_eq_all_conv dest: in_set_takeD)
  show ?case
  proof (cases "length xs < bufSize")
    case True
    have tw0: "takeWhile (\<lambda>c. c \<noteq> d) xs = xs"
      using less.prems by (auto simp: takeWhile_eq_all_conv)
    from True show ?thesis
      by (subst readBytesFrom.simps) (simp add: tw0)
  next
    case False
    then have l: "length (drop bufSize xs) < length xs" by (simp add: bufSize_def)
    have "d \<notin> set (drop bufSize xs)" using less.prems by (auto dest: in_set_dropD)
    from less.hyps [OF l this] False show ?thesis
      by (subst readBytesFrom.simps) (simp add: tw)
  qed
qed

lemma readBytesFrom_line:
  "d \<notin> set l \<Longrightarrow>
   readBytesFrom d (l @ d # rest) = (l @ [d], readAhead (length l) (length rest), None)"
proof (induction "length l" arbitrary: l rule: less_induct)
  case less
  show ?case
  proof (cases "length l < bufSize")
    case True
    then have tk: "take bufSize (l @ d # rest) = l @ d # take (bufSize - length l - 1) rest"
      by (cases "bufSize - length l") (auto)
    have tw: "takeWhile (\<lambda>c. c \<noteq> d) (l @ d # take (bufSize - length l - 1) rest) = l"
      using less.prems by (subst takeWhile_append2) auto
    have dv: "length l div bufSize = 0" using True by simp
    show ?thesis
      apply (subst readBytesFrom.simps)
      apply (simp only: tk tw)
      using True apply (auto simp add: readAhead_def dv min_def)
      done
  next
    case False
    then have tk: "take bufSize (l @ d # rest) = take bufSize l" by simp
    have tw: "takeWhile (\<lambda>c. c \<noteq> d) (take bufSize l) = take bufSize l"
      using less.prems by (auto simp: takeWhile_eq_all_conv dest: in_set_takeD)
    have len: "length (take bufSize l) = bufSize" using False by simp
    have dr: "drop bufSize (l @ d # rest) = drop bufSize l @ d # rest" using False by simp
    have l': "length (drop bufSize l) < length l" using False by (simp add: bufSize_def)
    have nd: "d \<notin> set (drop bufSize l)" using less.prems by (auto dest: in_set_dropD)
    have dv: "length l div bufSize = Suc ((length l - bufSize) div bufSize)"
      using False le_div_geq [of bufSize "length l"] by (simp add: bufSize_def)
    have e1: "bufSize + (length l - bufSize + 1 + length rest) = length l + 1 + length rest"
      using False by simp
    have e2: "bufSize + bufSize * ((length l - bufSize) div bufSize + 1)
                = bufSize * (length l div bufSize + 1)"
      by (simp add: dv)
    have ra: "bufSize + readAhead (length l - bufSize) (length rest) = readAhead (length l) (length rest)"
      unfolding readAhead_def by (simp only: min_add_distrib_right e1 e2)
    show ?thesis
      apply (subst readBytesFrom.simps)
      apply (simp only: tk tw len dr less.hyps [OF l' nd])
      using ra apply simp
      done
  qed
qed

lemma readAhead_ge: "n + 1 \<le> readAhead n m"
proof -
  have "n < bufSize * (n div bufSize + 1)"
    using div_mult_mod_eq [of n bufSize] mod_less_divisor [of bufSize n]
    by (simp add: bufSize_def algebra_simps)
  then show ?thesis by (simp add: readAhead_def)
qed


lemma ReadBytes_line:
  "remaining s = l @ d # rest \<Longrightarrow> d \<notin> set l \<Longrightarrow>
   ReadBytes (osFile s) d =
     (l @ [d], None, readAhead (length l) (length rest) - (length l + 1),
      (osFile s)\<lparr>offset := offset (osFile s) + readAhead (length l) (length rest)\<rparr>)"
  by (simp add: ReadBytes_def readBytesFrom_line remaining_def)

lemma ReadBytes_eof:
  "d \<notin> set (remaining s) \<Longrightarrow>
   ReadBytes (osFile s) d =
     (remaining s, Some EOF, 0,
      (osFile s)\<lparr>offset := offset (osFile s) + length (remaining s)\<rparr>)"
  by (simp add: ReadBytes_def readBytesFrom_eof remaining_def)

lemma Seek_back_after_line:
  "Seek (fl\<lparr>offset := offset fl + readAhead n m\<rparr>) (- int (readAhead n m - Suc n)) 1
     = (Ok (int (Suc (offset fl + n))), fl\<lparr>offset := Suc (offset fl + n)\<rparr>)"
proof -
  have "Suc n \<le> readAhead n m" using readAhead_ge [of n m] by simp
  then have "int (offset fl + readAhead n m) - int (readAhead n m - Suc n) = int (Suc (offset fl + n))"
    by (simp add: of_nat_diff)
  then show ?thesis
    by (simp add: Seek_def Let_def del: of_nat_Suc of_nat_add)
qed

lemma SkipFrameHeader_eof:
  "CHR 0x0A \<notin> set (remaining s) \<Longrightarrow>
   SkipFrameHeader s = (Fail EOF, advance s (length (remaining s)))"
  by (simp add: SkipFrameHeader_def ReadBytes_eof advance_def)

lemma ParseFrameHeader_eof:
  "CHR 0x0A \<notin> set (remaining s) \<Longrightarrow>
   ParseFrameHeader s = (Fail EOF, advance s (length (remaining s)))"
  by (simp add: ParseFrameHeader_def ReadBytes_eof advance_def)

lemma SkipFrameHeader_ok:
  "remaining s = l @ CHR 0x0A # rest \<Longrightarrow> CHR 0x0A \<notin> set l \<Longrightarrow> take 5 l = ''FRAME'' \<Longrightarrow>
   SkipFrameHeader s = (Ok (), advance s (length l + 1))"
proof -
  assume r: "remaining s = l @ CHR 0x0A # rest" and n: "CHR 0x0A \<notin> set l"
    and m: "take 5 l = ''FRAME''"
  from m have "length (take 5 l) = 5" by simp
  then have len: "5 \<le> length l" by simp
  show ?thesis
    using len m
    by (simp add: SkipFrameHeader_def ReadBytes_line [OF r n] sliceOf_def Seek_back_after_line
        advance_def)
qed

lemma SkipFrameHeader_bad_magic:
  "remaining s = l @ CHR 0x0A # rest \<Longrightarrow> CHR 0x0A \<notin> set l \<Longrightarrow> 14 \<le> length l \<Longrightarrow>
   take 5 l \<noteq> ''FRAME'' \<Longrightarrow>
   SkipFrameHeader s =
     (Fail (ErrSkipMagic (take 15 (l @ [CHR 0x0A]))),
      advance s (readAhead (length l) (length rest)))"
  by (simp add: SkipFrameHeader_def ReadBytes_line sliceOf_def advance_def)

lemma ParseFrameHeader_line:
  "remaining s = l @ CHR 0x0A # rest \<Longrightarrow> CHR 0x0A \<notin> set l \<Longrightarrow>
   ParseFrameHeader s =
     (case Fields (l @ [CHR 0x0A]) of
        [] \<Rightarrow> (Fail ErrNoFrameHeader, advance s (readAhead (length l) (length rest)))
      | magicString # fs \<Rightarrow>
          if magicString = ''FRAME'' then
            (case parseFrameFields fs
                    \<lparr>MagicString = magicString, I = None, FrameHeader.Metadata = [],
                     Raw = l @ [CHR 0x0A]\<rparr> of
               Ok h \<Rightarrow> (Ok h, advance s (length l + 1))
             | Fail er \<Rightarrow> (Fail er, advance s (readAhead (length l) (length rest)))
             | Panic p \<Rightarrow> (Panic p, advance s (readAhead (length l) (length rest))))
          else (Fail ErrParseMagic, advance s (readAhead (length l) (length rest))))"
  by (simp add: ParseFrameHeader_def ReadBytes_line Seek_back_after_line advance_def
      split: list.splits res.splits)

lemma advance_0 [simp]: "advance s 0 = s"
  by (simp add: advance_def)

lemma advance_advance [simp]: "advance (advance s j) k = advance s (j + k)"
  by (simp add: advance_def add.assoc)

lemma remaining_advance [simp]: "remaining (advance s k) = drop k (remaining s)"
  by (simp add: remaining_def advance_def add.commute)

lemma geometry_advance [simp]:
  "LumaPlaneSize (advance s k) = LumaPlaneSize s"
  "ChromaPlaneSize (advance s k) = ChromaPlaneSize s"
  "AlphaPlaneSize (advance s k) = AlphaPlaneSize s"
  "FrameImageDataSize (advance s k) = FrameImageDataSize s"
  "Stream.Width (advance s k) = Stream.Width s"
  "Stream.Height (advance s k) = Stream.Height s"
  "Stream.Chroma (advance s k) = Stream.Chroma s"
  by (simp_all add: advance_def LumaPlaneSize_def ChromaPlaneSize_def AlphaPlaneSize_def
      FrameImageDataSize_def split: res.splits)

lemma grabPlane_result:
  "0 \<le> n \<Longrightarrow>
   grabPlane s n =
     (if n \<le> int (length (remaining s)) then Ok (take (nat n) (remaining s))
      else if remaining s = [] then Fail EOF else Fail ErrUnexpectedEOF,
      advance s (min (nat n) (length (remaining s))))"
  by (auto simp: grabPlane_def ReadFull_def Let_def remaining_def advance_def min_def)

lemma SkipFrame_eof:
  "CHR 0x0A \<notin> set (remaining s) \<Longrightarrow> fst (SkipFrame s) = Fail EOF"
  by (simp add: SkipFrame_def SkipFrameHeader_eof)

lemma ParseFrame_eof:
  "CHR 0x0A \<notin> set (remaining s) \<Longrightarrow> fst (ParseFrame s) = Fail EOF"
  by (simp add: ParseFrame_def thenS_def ParseFrameHeader_eof)

lemma SkipFrame_ignores_planes:
  "SkipFrameHeader s = (Ok (), s1) \<Longrightarrow> FrameImageDataSize s1 = Ok n \<Longrightarrow>
   0 \<le> int (offset (osFile s1)) + n \<Longrightarrow> fst (SkipFrame s) = Ok ()"
  by (simp add: SkipFrame_def Seek_def Let_def)

lemma ParseFrame_truncated:
  assumes h: "ParseFrameHeader s = (Ok fh, s1)"
    and c: "ChromaPlaneSize s1 = Ok c"
    and nn: "0 \<le> LumaPlaneSize s1" "0 \<le> c" "0 \<le> AlphaPlaneSize s1"
    and short: "int (length (remaining s1)) < LumaPlaneSize s1 + 2 * c + AlphaPlaneSize s1"
  shows "fst (ParseFrame s) =
     (if int (length (remaining s1)) \<in>
           {0, LumaPlaneSize s1, LumaPlaneSize s1 + c, LumaPlaneSize s1 + 2 * c}
      then Fail EOF else Fail ErrUnexpectedEOF)"
proof -
  define r where "r = int (length (remaining s1))"
  define L where "L = LumaPlaneSize s1"
  define A where "A = AlphaPlaneSize s1"
  have r0: "0 \<le> r" by (simp add: r_def)
  have PF: "ParseFrame s =
     thenS (grabPlane s1 L) (\<lambda>y s2.
     thenS (ChromaPlaneSize s2, s2) (\<lambda>csize s3.
     thenS (grabPlane s3 csize) (\<lambda>cb s4.
     thenS (ChromaPlaneSize s4, s4) (\<lambda>csize' s5.
     thenS (grabPlane s5 csize') (\<lambda>cr s6.
     thenS (grabPlane s6 (AlphaPlaneSize s6)) (\<lambda>alpha s7.
       (Ok \<lparr>Frame.Header = Some fh, Frame.Width = Stream.Width s7,
            Frame.Height = Stream.Height s7, Frame.Chroma = Stream.Chroma s7,
            Y = y, Cb = cb, Cr = cr, Alpha = alpha\<rparr>, s7)))))))"
    by (simp add: ParseFrame_def h thenS_def L_def)
  show ?thesis
  proof (cases "r < L")
    case True
    then have "fst (ParseFrame s) = (if r = 0 then Fail EOF else Fail ErrUnexpectedEOF)"
      using nn by (simp add: PF thenS_def grabPlane_result r_def L_def)
    moreover have "r \<in> {0, L, L + c, L + 2 * c} \<longleftrightarrow> r = 0"
      using True nn by auto
    ultimately show ?thesis by (simp add: r_def L_def)
  next
    case F1: False
    then have g1: "grabPlane s1 L = (Ok (take (nat L) (remaining s1)), advance s1 (nat L))"
      using nn by (simp add: grabPlane_result r_def L_def min_def)
    have len2: "int (length (remaining (advance s1 (nat L)))) = r - L"
      using F1 nn by (simp add: r_def L_def)
    have e2: "remaining (advance s1 (nat L)) = [] \<longleftrightarrow> r - L = 0"
      using len2 by (cases "remaining (advance s1 (nat L))") (auto simp del: remaining_advance)
    show ?thesis
    proof (cases "r - L < c")
      case True
      then have "fst (ParseFrame s) = (if r - L = 0 then Fail EOF else Fail ErrUnexpectedEOF)"
        using nn len2
        by (simp add: PF thenS_def g1 c grabPlane_result e2 del: remaining_advance)
      moreover have "r \<in> {0, L, L + c, L + 2 * c} \<longleftrightarrow> r - L = 0"
        using True F1 nn by (auto simp: L_def)
      ultimately show ?thesis by (simp add: r_def L_def)
    next
      case F2: False
      then have g2: "grabPlane (advance s1 (nat L)) c =
          (Ok (take (nat c) (remaining (advance s1 (nat L)))), advance s1 (nat L + nat c))"
        using nn len2 by (simp add: grabPlane_result min_def del: remaining_advance)
      have len3: "int (length (remaining (advance s1 (nat L + nat c)))) = r - L - c"
        using F1 F2 nn by (simp add: r_def L_def)
      have e3: "remaining (advance s1 (nat L + nat c)) = [] \<longleftrightarrow> r - L - c = 0"
        using len3 by (cases "remaining (advance s1 (nat L + nat c))") (auto simp del: remaining_advance)
      show ?thesis
      proof (cases "r - L - c < c")
        case True
        then have "fst (ParseFrame s) = (if r - L - c = 0 then Fail EOF else Fail ErrUnexpectedEOF)"
          using nn len3
          by (simp add: PF thenS_def g1 g2 c grabPlane_result e3 del: remaining_advance)
        moreover have "r \<in> {0, L, L + c, L + 2 * c} \<longleftrightarrow> r - L - c = 0"
          using True F1 F2 nn by (auto simp: L_def)
        ultimately show ?thesis by (simp add: r_def L_def)
      next
        case F3: False
        then have g3: "grabPlane (advance s1 (nat L + nat c)) c =
            (Ok (take (nat c) (remaining (advance s1 (nat L + nat c)))),
             advance s1 (nat L + nat c + nat c))"
          using nn len3 by (simp add: grabPlane_result min_def del: remaining_advance)
        have len4: "int (length (remaining (advance s1 (nat L + nat c + nat c)))) = r - L - c - c"
          using F1 F2 F3 nn by (simp add: r_def L_def)
        have e4: "remaining (advance s1 (nat L + nat c + nat c)) = [] \<longleftrightarrow> r - L - c - c = 0"
          using len4 by (cases "remaining (advance s1 (nat L + nat c + nat c))") (auto simp del: remaining_advance)
        have lt: "r - L - c - c < A"
          using short by (simp add: r_def L_def A_def)
        then have "fst (ParseFrame s) = (if r - L - c - c = 0 then Fail EOF else Fail ErrUnexpectedEOF)"
          using nn len4
          by (simp add: PF thenS_def g1 g2 g3 c grabPlane_result A_def e4 del: remaining_advance)
        moreover have "r \<in> {0, L, L + c, L + 2 * c} \<longleftrightarrow> r - L - c - c = 0"
          using F1 F2 F3 nn by (auto simp: L_def)
        ultimately show ?thesis by (simp add: r_def L_def)
      qed
    qed
  qed
qed

lemma ToFirstFrame_line:
  "contents (osFile s) = hl @ CHR 0x0A # body \<Longrightarrow> CHR 0x0A \<notin> set hl \<Longrightarrow>
   ToFirstFrame s = (Ok (), s\<lparr>osFile := (osFile s)\<lparr>offset := length hl + 1\<rparr>\<rparr>)"
proof -
  assume c: "contents (osFile s) = hl @ CHR 0x0A # body" and n: "CHR 0x0A \<notin> set hl"
  define s0 where "s0 = s\<lparr>osFile := (osFile s)\<lparr>offset := 0\<rparr>\<rparr>"
  have r: "remaining s0 = hl @ CHR 0x0A # body"
    by (simp add: remaining_def s0_def c)
  have f: "osFile s0 = (osFile s)\<lparr>offset := 0\<rparr>" by (simp add: s0_def)
  have o: "offset (osFile s0) = 0" by (simp add: s0_def)
  show ?thesis
    using ReadBytes_line [OF r n] Seek_back_after_line [of "osFile s0" "length hl" "length body"]
    by (simp add: ToFirstFrame_def Seek_def f o)
qed

lemma SkipFrame_frame:
  "remaining s = l @ CHR 0x0A # rest \<Longrightarrow> CHR 0x0A \<notin> set l \<Longrightarrow> take 5 l = ''FRAME'' \<Longrightarrow>
   FrameImageDataSize s = Ok n \<Longrightarrow> 0 \<le> n \<Longrightarrow>
   SkipFrame s = (Ok (), advance s (length l + 1 + nat n))"
  by (simp add: SkipFrame_def SkipFrameHeader_ok Seek_def Let_def)
     (simp add: advance_def nat_add_distrib)

lemma SkipFrame_bad_magic:
  "remaining s = l @ CHR 0x0A # rest \<Longrightarrow> CHR 0x0A \<notin> set l \<Longrightarrow> 14 \<le> length l \<Longrightarrow>
   take 5 l \<noteq> ''FRAME'' \<Longrightarrow>
   SkipFrame s =
     (Fail (ErrSkipMagic (take 15 (l @ [CHR 0x0A]))),
      advance s (readAhead (length l) (length rest)))"
  by (simp add: SkipFrame_def SkipFrameHeader_bad_magic)

lemma ex_contents:
  "contents (osFile (exampleStream444 body j)) = exampleHeaderText @ CHR 0x0A # body"
  by (simp add: exampleStream444_def exampleHeader444_def)

lemma ex_set_offset:
  "(exampleStream444 body j)\<lparr>osFile := (osFile (exampleStream444 body j))\<lparr>offset := k\<rparr>\<rparr>
     = exampleStream444 body k"
  by (simp add: exampleStream444_def)

lemma exampleFrameBytes_split:
  "exampleFrameBytes = ''FRAME'' @ CHR 0x0A # ''01234567abcdefghijklmnop''"
  by (simp add: exampleFrameBytes_def)


subsection \<open>The sample stream\<close>

lemma exampleHeader_facts:
  "length exampleHeaderText = 20"
  "CHR 0x0A \<notin> set exampleHeaderText"
  "length exampleHeader444 = 21"
  by (simp_all add: exampleHeaderText_def exampleHeader444_def)

lemma ex_remaining_k: "remaining (exampleStream444 body (21 + k)) = drop k body"
  by (simp add: remaining_def exampleStream444_def exampleHeader_facts)

lemma ex_remaining: "remaining (exampleStream444 body 21) = body"
  using ex_remaining_k [of body 0] by simp

lemma ex_advance: "advance (exampleStream444 body j) k = exampleStream444 body (j + k)"
  by (simp add: advance_def exampleStream444_def)

lemma ex_offset: "offset (osFile (exampleStream444 body j)) = j"
  by (simp add: exampleStream444_def)

lemma ex_geometry:
  "LumaPlaneSize (exampleStream444 body j) = 8"
  "ChromaPlaneSize (exampleStream444 body j) = Ok 8"
  "AlphaPlaneSize (exampleStream444 body j) = 0"
  "FrameImageDataSize (exampleStream444 body j) = Ok 24"
  by (simp_all add: exampleStream444_def LumaPlaneSize_def ChromaPlaneSize_def
      AlphaPlaneSize_def FrameImageDataSize_def divGo_def quo64_def mul64_def add64_def wrap64_def)

lemma exampleBadText_facts:
  "length exampleBadText = 21"
  "CHR 0x0A \<notin> set exampleBadText"
  "take 5 exampleBadText \<noteq> ''FRAME''"
  "take 15 (exampleBadText @ [CHR 0x0A]) = ''GARBAGEGARBAGEG''"
  "take 15 exampleBadText = ''GARBAGEGARBAGEG''"
  by (simp_all add: exampleBadText_def)

lemma Fields_exampleBadText: "Fields (exampleBadText @ [CHR 0x0A]) = [exampleBadText]"
  by code_simp

lemma length_exampleFrameBytes: "length exampleFrameBytes = 30"
  by (simp add: exampleFrameBytes_def)

lemma readAhead_small: "n + 1 + m \<le> 4096 \<Longrightarrow> readAhead n m = n + 1 + m"
  by (simp add: readAhead_def bufSize_def min_def)

lemma SkipFrameHeader_exampleBad:
  "SkipFrameHeader (exampleStream444 (exampleBadLine @ exampleFrameBytes) 21)
     = (Fail (ErrSkipMagic ''GARBAGEGARBAGEG''),
        exampleStream444 (exampleBadLine @ exampleFrameBytes) 73)"
proof -
  have r: "remaining (exampleStream444 (exampleBadLine @ exampleFrameBytes) 21)
     = exampleBadText @ CHR 0x0A # exampleFrameBytes"
    by (simp add: ex_remaining exampleBadLine_def)
  show ?thesis
    using SkipFrameHeader_bad_magic [OF r exampleBadText_facts(2)]
    by (simp add: exampleBadText_facts length_exampleFrameBytes readAhead_small ex_advance)
qed

lemma ParseFrameHeader_exampleBad:
  "ParseFrameHeader (exampleStream444 (exampleBadLine @ exampleFrameBytes) 21)
     = (Fail ErrParseMagic, exampleStream444 (exampleBadLine @ exampleFrameBytes) 73)"
proof -
  have r: "remaining (exampleStream444 (exampleBadLine @ exampleFrameBytes) 21)
     = exampleBadText @ CHR 0x0A # exampleFrameBytes"
    by (simp add: ex_remaining exampleBadLine_def)
  have ne: "exampleBadText \<noteq> ''FRAME''" by (simp add: exampleBadText_def)
  show ?thesis
    using ParseFrameHeader_line [OF r exampleBadText_facts(2)] ne
    by (simp add: Fields_exampleBadText exampleBadText_facts length_exampleFrameBytes
        readAhead_small ex_advance)
qed


lemma Fields_FRAME: "Fields (''FRAME'' @ [CHR 0x0A]) = [''FRAME'']"
  by code_simp

lemma ParseFrameHeader_example:
  "ParseFrameHeader (exampleStream444 (''FRAME'' @ CHR 0x0A # rest) 21)
     = (Ok exampleFrameHeader, exampleStream444 (''FRAME'' @ CHR 0x0A # rest) 27)"
  using ParseFrameHeader_line [OF ex_remaining, of "''FRAME''" rest]
  by (simp add: Fields_FRAME [simplified] ex_advance exampleFrameHeader_def)

lemma SkipFrameHeader_example:
  "SkipFrameHeader (exampleStream444 (''FRAME'' @ CHR 0x0A # rest) 21)
     = (Ok (), exampleStream444 (''FRAME'' @ CHR 0x0A # rest) 27)"
  using SkipFrameHeader_ok [OF ex_remaining, of "''FRAME''" rest]
  by (simp add: ex_advance)


section \<open>Frame headers without the magic string\<close>

text \<open>
  C3, as the code has it. Let the cursor stand before a line \<open>l\<close> that ends in a newline.
  When the line has at least 15 bytes and does not begin with \<open>FRAME\<close>, \<open>SkipFrameHeader\<close>
  fails with the format error that names the first 15 bytes of the line. When the first
  white-space-separated field of the line is not \<open>FRAME\<close>, \<open>ParseFrameHeader\<close> fails with
  a format error that names no bytes (and with \<open>ErrNoFrameHeader\<close> when the line has no
  field). On these error paths the cursor is not moved back: it stays where the buffered
  reader stopped, \<open>readAhead\<close> bytes after the start, which is at or after the end of the
  line.
\<close>

theorem frame_magic_mismatch:
  "remaining s = l @ CHR 0x0A # rest \<Longrightarrow> CHR 0x0A \<notin> set l \<Longrightarrow>
   (14 \<le> length l \<and> take 5 l \<noteq> ''FRAME'' \<longrightarrow>
      SkipFrameHeader s =
        (Fail (ErrSkipMagic (take 15 (l @ [CHR 0x0A]))),
         advance s (readAhead (length l) (length rest)))) \<and>
   (Fields (l @ [CHR 0x0A]) = [] \<longrightarrow>
      ParseFrameHeader s =
        (Fail ErrNoFrameHeader, advance s (readAhead (length l) (length rest)))) \<and>
   (Fields (l @ [CHR 0x0A]) \<noteq> [] \<and> hd (Fields (l @ [CHR 0x0A])) \<noteq> ''FRAME'' \<longrightarrow>
      ParseFrameHeader s =
        (Fail ErrParseMagic, advance s (readAhead (length l) (length rest)))) \<and>
   length l + 1 \<le> readAhead (length l) (length rest)"
proof -
  assume r: "remaining s = l @ CHR 0x0A # rest" and n: "CHR 0x0A \<notin> set l"
  have a: "14 \<le> length l \<and> take 5 l \<noteq> ''FRAME'' \<longrightarrow>
      SkipFrameHeader s =
        (Fail (ErrSkipMagic (take 15 (l @ [CHR 0x0A]))),
         advance s (readAhead (length l) (length rest)))"
    using SkipFrameHeader_bad_magic [OF r n] by blast
  have b: "Fields (l @ [CHR 0x0A]) = [] \<longrightarrow>
      ParseFrameHeader s =
        (Fail ErrNoFrameHeader, advance s (readAhead (length l) (length rest)))"
    by (simp add: ParseFrameHeader_line [OF r n])
  have c: "Fields (l @ [CHR 0x0A]) \<noteq> [] \<and> hd (Fields (l @ [CHR 0x0A])) \<noteq> ''FRAME'' \<longrightarrow>
      ParseFrameHeader s =
        (Fail ErrParseMagic, advance s (readAhead (length l) (length rest)))"
    by (auto simp: ParseFrameHeader_line [OF r n] split: list.splits)
  show ?thesis using a b c readAhead_ge [of "length l" "length rest"] by blast
qed


theorem frame_magic_mismatch_witness:
  "remaining (exampleStream444 (exampleBadLine @ exampleFrameBytes) 21)
     = exampleBadText @ CHR 0x0A # exampleFrameBytes \<and>
   CHR 0x0A \<notin> set exampleBadText \<and>
   14 \<le> length exampleBadText \<and> take 5 exampleBadText \<noteq> ''FRAME'' \<and>
   Fields (exampleBadText @ [CHR 0x0A]) \<noteq> [] \<and>
   hd (Fields (exampleBadText @ [CHR 0x0A])) \<noteq> ''FRAME'' \<and>
   SkipFrameHeader (exampleStream444 (exampleBadLine @ exampleFrameBytes) 21)
     = (Fail (ErrSkipMagic ''GARBAGEGARBAGEG''),
        exampleStream444 (exampleBadLine @ exampleFrameBytes) 73) \<and>
   ParseFrameHeader (exampleStream444 (exampleBadLine @ exampleFrameBytes) 21)
     = (Fail ErrParseMagic, exampleStream444 (exampleBadLine @ exampleFrameBytes) 73)"
proof -
  have r: "remaining (exampleStream444 (exampleBadLine @ exampleFrameBytes) 21)
     = exampleBadText @ CHR 0x0A # exampleFrameBytes"
    by (simp add: ex_remaining exampleBadLine_def)
  have ne: "exampleBadText \<noteq> ''FRAME''" by (simp add: exampleBadText_def)
  show ?thesis
    using frame_magic_mismatch [OF r exampleBadText_facts(2)] ne
    by (simp add: r Fields_exampleBadText exampleBadText_facts length_exampleFrameBytes
        readAhead_small ex_advance)
qed


text \<open>
  The claim C3 as stated fails on the sample stream with the cursor on a line
  \<^verbatim>\<open>GARBAGEGARBAGEGARBAGE\<close>: both operations fail, \<open>ParseFrameHeader\<close> without naming
  the bytes found, and both leave the cursor at offset 73, the end of the file, not at
  offset 21 where the read began.
\<close>

theorem frame_magic_mismatch_counterexample:
  "SkipFrameHeader (exampleStream444 (exampleBadLine @ exampleFrameBytes) 21)
     = (Fail (ErrSkipMagic ''GARBAGEGARBAGEG''),
        exampleStream444 (exampleBadLine @ exampleFrameBytes) 73) \<and>
   ParseFrameHeader (exampleStream444 (exampleBadLine @ exampleFrameBytes) 21)
     = (Fail ErrParseMagic, exampleStream444 (exampleBadLine @ exampleFrameBytes) 73) \<and>
   offset (osFile (exampleStream444 (exampleBadLine @ exampleFrameBytes) 73))
     \<noteq> offset (osFile (exampleStream444 (exampleBadLine @ exampleFrameBytes) 21))"
  using SkipFrameHeader_exampleBad ParseFrameHeader_exampleBad by (simp add: ex_offset)

section \<open>End of stream and truncation\<close>






section \<open>CountFrames\<close>

text \<open>
  C1. The claim holds on the path that leaves the loop at \<^verbatim>\<open>io.EOF\<close>, which alone
  reaches the \<^verbatim>\<open>Seek(initPos, 0)\<close>; every error return of \<open>CountFrames\<close> comes before
  it. On the sample stream with one well-formed frame, a line that is not a frame
  header, and another frame, called with the cursor at offset 21, \<open>CountFrames\<close> returns
  the format error and leaves the cursor at offset 103, the end of the file.
\<close>

theorem CountFrames_error_exit_cursor_not_restored:
  "CountFrames (exampleStream444 (exampleFrameBytes @ exampleBadLine @ exampleFrameBytes) 21)
   = Some (Fail (ErrSkipMagic ''GARBAGEGARBAGEG''),
           exampleStream444 (exampleFrameBytes @ exampleBadLine @ exampleFrameBytes) 103)"
proof -
  define body where "body = exampleFrameBytes @ exampleBadLine @ exampleFrameBytes"
  have tf: "ToFirstFrame (exampleStream444 body 0) = (Ok (), exampleStream444 body 21)"
    using ToFirstFrame_line [OF ex_contents exampleHeader_facts(2), of body 0]
    by (simp add: ex_set_offset exampleHeader_facts)
  have r1: "remaining (exampleStream444 body 21)
      = ''FRAME'' @ CHR 0x0A # (''01234567abcdefghijklmnop'' @ exampleBadLine @ exampleFrameBytes)"
    by (simp add: ex_remaining body_def exampleFrameBytes_split)
  have s1: "SkipFrame (exampleStream444 body 21) = (Ok (), exampleStream444 body 51)"
    using SkipFrame_frame [OF r1, of 24] by (simp add: ex_geometry ex_advance)
  have r2: "remaining (exampleStream444 body 51)
      = exampleBadText @ CHR 0x0A # exampleFrameBytes"
    using ex_remaining_k [of body 30]
    by (simp add: body_def length_exampleFrameBytes exampleBadLine_def)
  have s2: "SkipFrame (exampleStream444 body 51)
      = (Fail (ErrSkipMagic ''GARBAGEGARBAGEG''), exampleStream444 body 103)"
    using SkipFrame_bad_magic [OF r2 exampleBadText_facts(2)]
    by (simp add: exampleBadText_facts length_exampleFrameBytes readAhead_small ex_advance)
  have loop: "countFramesLoop (exampleStream444 body 21) 0
      = Some (Fail (ErrSkipMagic ''GARBAGEGARBAGEG''), exampleStream444 body 103)"
    by (subst countFramesLoop.simps, simp add: s1, subst countFramesLoop.simps, simp add: s2)
  show ?thesis
    unfolding body_def [symmetric]
    by (simp add: CountFrames_def Seek_def ex_offset ex_set_offset tf loop)
qed

section \<open>Crop within bounds\<close>

lemma int_le_div_iff:
  fixes m n q :: int
  assumes "0 < q"
  shows "m \<le> n div q \<longleftrightarrow> m * q \<le> n"
proof
  assume "m \<le> n div q"
  then have "m * q \<le> (n div q) * q" using assms by (simp add: mult_right_mono)
  also have "\<dots> \<le> n"
    using assms by (metis mult.commute pos_mod_sign mult_div_mod_eq le_add_same_cancel1)
  finally show "m * q \<le> n" .
next
  assume "m * q \<le> n"
  then have "(m * q) div q \<le> n div q" using assms by (rule zdiv_mono1)
  then show "m \<le> n div q" using assms by simp
qed

lemma int_div_add_le:
  fixes a b c :: int
  assumes "0 < c"
  shows "a div c + b div c \<le> (a + b) div c"
proof -
  have "(a div c + b div c) * c \<le> a + b"
  proof -
    have "(a div c) * c \<le> a" "(b div c) * c \<le> b"
      using assms int_le_div_iff by blast+
    then show ?thesis by (simp add: algebra_simps)
  qed
  then show ?thesis using assms int_le_div_iff by blast
qed

lemma chroma_row_bound:
  fixes y yo h H W xo w X Yf :: int
  assumes "0 \<le> y" "y < h div Yf" "0 \<le> yo" "h + yo \<le> H" "0 \<le> W" "0 \<le> xo" "0 \<le> w"
    "w + xo \<le> W" "0 < X" "0 < Yf"
  shows "((y + yo div Yf) * W) div X + xo div X + w div X \<le> ((W * H) div X) div Yf"
proof -
  let ?yt = "y + yo div Yf"
  have "?yt + 1 \<le> h div Yf + yo div Yf" using assms by simp
  also have "\<dots> \<le> (h + yo) div Yf" using assms int_div_add_le by blast
  also have "\<dots> \<le> H div Yf" using assms by (simp add: zdiv_mono1)
  finally have q: "?yt + 1 \<le> H div Yf" .
  then have "(?yt + 1) * Yf \<le> H" using assms int_le_div_iff by blast
  then have "W * ((?yt + 1) * Yf) \<le> W * H" using assms by (simp add: mult_left_mono)
  then have t: "((?yt + 1) * W) * Yf \<le> W * H" by (simp add: algebra_simps)
  have "(?yt * W) div X + xo div X + w div X \<le> (?yt * W + xo + w) div X"
    using int_div_add_le [OF assms(9), of "?yt * W" xo]
          int_div_add_le [OF assms(9), of "?yt * W + xo" w] by linarith
  also have "\<dots> \<le> ((?yt + 1) * W) div X"
    using assms by (intro zdiv_mono1) (simp_all add: algebra_simps)
  finally have a: "(?yt * W) div X + xo div X + w div X \<le> ((?yt + 1) * W) div X" .
  have "(((?yt + 1) * W) div X) * Yf * X \<le> ((?yt + 1) * W) * Yf"
  proof -
    have "(((?yt + 1) * W) div X) * X \<le> (?yt + 1) * W"
      using assms int_le_div_iff by blast
    then have "((((?yt + 1) * W) div X) * X) * Yf \<le> ((?yt + 1) * W) * Yf"
      using assms by (simp add: mult_right_mono)
    then show ?thesis by (simp add: algebra_simps)
  qed
  then have "(((?yt + 1) * W) div X) * Yf * X \<le> W * H" using t by linarith
  then have "(((?yt + 1) * W) div X) * Yf \<le> (W * H) div X"
    using assms int_le_div_iff by blast
  then have "((?yt + 1) * W) div X \<le> ((W * H) div X) div Yf"
    using assms int_le_div_iff by blast
  with a show ?thesis by linarith
qed

lemma aligned_size:
  fixes w h X Yf :: int
  assumes "0 < X" "0 < Yf" "X dvd w" "Yf dvd h"
  shows "(h div Yf) * (w div X) = ((w * h) div X) div Yf"
proof -
  obtain a where a: "w = X * a" using assms by (auto elim: dvdE)
  obtain b where b: "h = Yf * b" using assms by (auto elim: dvdE)
  have "(w * h) div X = a * h" using assms a by simp
  moreover have "(a * h) div Yf = a * b" using assms b by simp
  ultimately show ?thesis using assms a b by simp
qed


lemma wrap64_id: "- (2 ^ 63) \<le> x \<Longrightarrow> x < 2 ^ 63 \<Longrightarrow> wrap64 x = x"
  by (simp add: wrap64_def)

lemma add64_id: "0 \<le> a \<Longrightarrow> 0 \<le> b \<Longrightarrow> a + b < 2 ^ 63 \<Longrightarrow> add64 a b = a + b"
  by (simp add: add64_def wrap64_id)

lemma mul64_id: "0 \<le> a \<Longrightarrow> 0 \<le> b \<Longrightarrow> a * b < 2 ^ 63 \<Longrightarrow> mul64 a b = a * b"
proof -
  assume a: "0 \<le> a" and b: "0 \<le> b" and r: "a * b < 2 ^ 63"
  have "0 \<le> a * b" using a b by simp
  then show ?thesis using r by (simp add: mul64_def wrap64_id)
qed

lemma quo64_id: "0 \<le> a \<Longrightarrow> 0 < b \<Longrightarrow> a < 2 ^ 63 \<Longrightarrow> quo64 a b = a div b"
proof -
  assume a: "0 \<le> a" and b: "0 < b" and r: "a < 2 ^ 63"
  have nn0: "0 \<le> a div b" using a b by (simp add: pos_imp_zdiv_nonneg_iff)
  have "a div b * b \<le> a" using b int_le_div_iff by blast
  moreover have "a div b * 1 \<le> a div b * b" using nn0 b by (intro mult_left_mono) auto
  ultimately have "a div b \<le> a" by linarith
  moreover have "0 \<le> a div b" using a b by (simp add: pos_imp_zdiv_nonneg_iff)
  ultimately show ?thesis using a b r
    by (simp add: quo64_def wrap64_id sgn_if)
qed

lemma sliceOf_ok:
  "0 \<le> x0 \<Longrightarrow> 0 \<le> n \<Longrightarrow> x0 + n \<le> int (length xs) \<Longrightarrow>
   sliceOf xs x0 (x0 + n) = Ok (take (nat n) (drop (nat x0) xs))"
  by (simp add: sliceOf_def)

lemma row_bound:
  fixes y :: int
  assumes "0 \<le> y" "y < h" "0 \<le> yo" "h + yo \<le> H" "0 \<le> W" "0 \<le> xo" "0 \<le> w" "w + xo \<le> W"
  shows "(y + yo) * W + xo + w \<le> W * H"
proof -
  have "(y + yo) + 1 \<le> H" using assms by simp
  then have "((y + yo) + 1) * W \<le> H * W" using assms(5) by (rule mult_right_mono)
  then show ?thesis using assms by (simp add: algebra_simps)
qed

lemma cropRowLoop_rows:
  assumes "0 \<le> w" "0 \<le> xo" "0 \<le> yo" "0 \<le> W" "w + xo \<le> W" "h + yo \<le> H"
    and "W * H \<le> int (length src)" and "W * H < 2 ^ 63" and "H < 2 ^ 63"
  shows "0 \<le> y \<Longrightarrow>
         cropRowLoop src W w h xo yo y acc =
           Ok (acc @ concat (map (\<lambda>i. take (nat w) (drop (nat ((i + yo) * W + xo)) src)) [y..h - 1]))"
proof (induction "nat (h - y)" arbitrary: y acc)
  case 0
  then have "\<not> y < h" by simp
  then show ?case by (subst cropRowLoop.simps) simp
next
  case (Suc n)
  then have lt: "y < h" by simp
  have y0: "0 \<le> y" by fact
  have b: "(y + yo) * W + xo + w \<le> W * H"
    using row_bound [OF y0 lt assms(3) assms(6) assms(4) assms(2) assms(1) assms(5)] .
  have p0: "0 \<le> (y + yo) * W" using y0 assms by simp
  have yt: "add64 y yo = y + yo"
    using y0 lt assms by (intro add64_id) auto
  have m: "mul64 (y + yo) W = (y + yo) * W"
    using y0 assms b p0 by (intro mul64_id) auto
  have x0: "add64 ((y + yo) * W) xo = (y + yo) * W + xo"
    using p0 assms b by (intro add64_id) auto
  have x1: "add64 ((y + yo) * W + xo) w = (y + yo) * W + xo + w"
    using p0 assms b by (intro add64_id) auto
  have sl: "sliceOf src ((y + yo) * W + xo) ((y + yo) * W + xo + w)
              = Ok (take (nat w) (drop (nat ((y + yo) * W + xo)) src))"
    using p0 assms b by (intro sliceOf_ok) auto
  have n: "n = nat (h - (y + 1))" using Suc.hyps(2) by simp
  have up: "[y..h - 1] = y # [y + 1..h - 1]" using lt by (simp add: upto_rec1)
  show ?case
    apply (subst cropRowLoop.simps)
    using lt Suc.hyps(1) [OF n, of "acc @ take (nat w) (drop (nat ((y + yo) * W + xo)) src)"] y0
    apply (simp add: Let_def yt m x0 x1 sl up)
    done
qed

lemma le_mult_pos: "0 \<le> a \<Longrightarrow> 0 < b \<Longrightarrow> a \<le> a * (b::int)"
  using mult_left_mono [of 1 b a] by simp

lemma div_div_le_self:
  fixes a X Yf :: int
  assumes "0 \<le> a" "0 < X" "0 < Yf"
  shows "a div X div Yf \<le> a"
proof -
  have "a div X div Yf * Yf \<le> a div X" using assms int_le_div_iff by blast
  moreover have "0 \<le> a div X div Yf"
    using assms by (simp add: pos_imp_zdiv_nonneg_iff)
  then have "a div X div Yf \<le> a div X div Yf * Yf"
    using assms by (intro le_mult_pos) auto
  moreover have "a div X * X \<le> a" using assms int_le_div_iff by blast
  moreover have "0 \<le> a div X" using assms by (simp add: pos_imp_zdiv_nonneg_iff)
  then have "a div X \<le> a div X * X"
    using assms by (intro le_mult_pos) auto
  ultimately show ?thesis by linarith
qed

lemma chroma_row_prod:
  fixes y yo h H W Yf :: int
  assumes "0 \<le> y" "y < h div Yf" "0 \<le> yo" "h + yo \<le> H" "0 \<le> W" "0 < Yf"
  shows "(y + yo div Yf + 1) * W \<le> W * H" and "y + yo div Yf + 1 \<le> H"
proof -
  let ?yt = "y + yo div Yf"
  have "?yt + 1 \<le> h div Yf + yo div Yf" using assms by simp
  also have "\<dots> \<le> (h + yo) div Yf" using assms int_div_add_le by blast
  also have "\<dots> \<le> H div Yf" using assms by (simp add: zdiv_mono1)
  finally have q: "?yt + 1 \<le> H div Yf" .
  then have "(?yt + 1) * Yf \<le> H" using assms int_le_div_iff by blast
  moreover have "0 \<le> ?yt + 1" using assms by (simp add: pos_imp_zdiv_nonneg_iff)
  then have "?yt + 1 \<le> (?yt + 1) * Yf" using assms by (intro le_mult_pos) auto
  ultimately show le: "?yt + 1 \<le> H" by linarith
  then have "(?yt + 1) * W \<le> H * W" using assms by (intro mult_right_mono) auto
  then show "(?yt + 1) * W \<le> W * H" by (simp add: mult.commute)
qed

lemma cropChromaLoop_rows:
  assumes "0 \<le> w" "0 \<le> h" "0 \<le> xo" "0 \<le> yo" "0 \<le> W" "w + xo \<le> W" "h + yo \<le> H"
    and "0 < X" "0 < Yf"
    and "(W * H) div X div Yf \<le> int (length cb)" "(W * H) div X div Yf \<le> int (length cr)"
    and "W * H < 2 ^ 63" "H < 2 ^ 63" "W < 2 ^ 63"
  shows "0 \<le> y \<Longrightarrow>
         cropChromaLoop cb cr W X Yf w h xo yo y ncb ncr =
           Ok (ncb @ concat (map (\<lambda>i. take (nat (w div X))
                                   (drop (nat (((i + yo div Yf) * W) div X + xo div X)) cb))
                             [y..h div Yf - 1]),
               ncr @ concat (map (\<lambda>i. take (nat (w div X))
                                   (drop (nat (((i + yo div Yf) * W) div X + xo div X)) cr))
                             [y..h div Yf - 1]))"
proof (induction "nat (h div Yf - y)" arbitrary: y ncb ncr)
  case 0
  have hq: "quo64 h Yf = h div Yf"
    using assms by (intro quo64_id) auto
  from 0 have "\<not> y < h div Yf" by simp
  then show ?case by (subst cropChromaLoop.simps) (simp add: hq)
next
  case (Suc n)
  have hH: "h \<le> H" using assms by simp
  have hq: "quo64 h Yf = h div Yf"
    using assms hH by (intro quo64_id) auto
  have yq: "quo64 yo Yf = yo div Yf"
    using assms by (intro quo64_id) auto
  have xq: "quo64 xo X = xo div X"
    using assms by (intro quo64_id) auto
  have wq: "quo64 w X = w div X"
    using assms by (intro quo64_id) auto
  from Suc have lt: "y < h div Yf" by simp
  have y0: "0 \<le> y" by fact
  let ?yt = "y + yo div Yf"
  have yd0: "0 \<le> yo div Yf" using assms by (simp add: pos_imp_zdiv_nonneg_iff)
  have xd0: "0 \<le> xo div X" using assms by (simp add: pos_imp_zdiv_nonneg_iff)
  have wd0: "0 \<le> w div X" using assms by (simp add: pos_imp_zdiv_nonneg_iff)
  have yt0: "0 \<le> ?yt" using y0 yd0 by simp
  have pr: "(?yt + 1) * W \<le> W * H" and ytH: "?yt + 1 \<le> H"
    using chroma_row_prod [OF y0 lt assms(4) assms(7) assms(5) assms(9)] by auto
  have p0: "0 \<le> ?yt * W" using yt0 assms by simp
  have pW: "?yt * W \<le> W * H" using pr assms by (simp add: algebra_simps)
  have pd0: "0 \<le> (?yt * W) div X" using p0 assms by (simp add: pos_imp_zdiv_nonneg_iff)
  have bnd: "(?yt * W) div X + xo div X + w div X \<le> (W * H) div X div Yf"
    using chroma_row_bound [OF y0 lt assms(4) assms(7) assms(5) assms(3) assms(1) assms(6)
        assms(8) assms(9)] .
  have c0: "0 \<le> W * H" using assms hH by simp
  have cle: "(W * H) div X div Yf \<le> W * H"
    using c0 assms by (intro div_div_le_self) auto
  have yt: "add64 y (yo div Yf) = ?yt"
    using y0 yd0 ytH assms by (intro add64_id) auto
  have m: "mul64 ?yt W = ?yt * W"
    using yt0 assms pW by (intro mul64_id) auto
  have pq: "quo64 (?yt * W) X = (?yt * W) div X"
    using p0 pW assms by (intro quo64_id) auto
  have x0: "add64 ((?yt * W) div X) (xo div X) = (?yt * W) div X + xo div X"
    using pd0 xd0 wd0 bnd cle assms by (intro add64_id) auto
  have x1: "add64 ((?yt * W) div X + xo div X) (w div X) = (?yt * W) div X + xo div X + w div X"
    using pd0 xd0 wd0 bnd cle assms by (intro add64_id) auto
  have slb: "sliceOf cb ((?yt * W) div X + xo div X) ((?yt * W) div X + xo div X + w div X)
              = Ok (take (nat (w div X)) (drop (nat ((?yt * W) div X + xo div X)) cb))"
    using pd0 xd0 wd0 bnd assms by (intro sliceOf_ok) auto
  have slr: "sliceOf cr ((?yt * W) div X + xo div X) ((?yt * W) div X + xo div X + w div X)
              = Ok (take (nat (w div X)) (drop (nat ((?yt * W) div X + xo div X)) cr))"
    using pd0 xd0 wd0 bnd assms by (intro sliceOf_ok) auto
  have n: "n = nat (h div Yf - (y + 1))" using Suc.hyps(2) by simp
  have up: "[y..h div Yf - 1] = y # [y + 1..h div Yf - 1]" using lt by (simp add: upto_rec1)
  have y1: "0 \<le> y + 1" using y0 by simp
  show ?case
    apply (subst cropChromaLoop.simps)
    using lt Suc.hyps(1) [OF n y1]
    apply (simp add: Let_def hq yq xq wq yt m pq x0 x1 slb slr up)
    done
qed

lemma table_factors_pos:
  "inSubsamplingTable c \<Longrightarrow> 0 < xSubsamplingFactor c \<and> 0 < ySubsamplingFactor c"
  by (auto simp: inSubsamplingTable_def xSubsamplingFactor_def ySubsamplingFactor_def
      xSubsamplingTable_def ySubsamplingTable_def)

lemma prod_le:
  fixes w h W H :: int
  assumes "0 \<le> w" "0 \<le> h" "w \<le> W" "h \<le> H"
  shows "w * h \<le> W * H"
  using assms by (intro mult_mono) auto

lemma cropPlane_rows:
  assumes "0 \<le> w" "0 \<le> h" "0 \<le> xo" "0 \<le> yo" "0 \<le> W" "w + xo \<le> W" "h + yo \<le> H"
    and "W * H \<le> int (length src)" and "W * H < 2 ^ 63" and "H < 2 ^ 63"
  shows "cropPlane src W w h xo yo = Ok (specCropRows src W w h xo yo)"
proof -
  have "w * h \<le> W * H" using assms by (intro prod_le) auto
  then have "mul64 w h = w * h" using assms by (intro mul64_id) auto
  moreover have "0 \<le> w * h" using assms by simp
  ultimately have mk: "makeCap (mul64 w h) = Ok ()" by (simp add: makeCap_def)
  show ?thesis
    using cropRowLoop_rows [OF assms(1) assms(3) assms(4) assms(5) assms(6) assms(7) assms(8)
        assms(9) assms(10), of 0 "[]"]
    by (simp add: cropPlane_def mk specCropRows_def)
qed

lemma chromaCap_ok:
  assumes "0 \<le> w" "0 \<le> h" "0 < X" "0 < Yf" "w * h < 2 ^ 63" "w < 2 ^ 63"
  shows "chromaCap w h X Yf = Ok ()"
proof -
  have wq: "quo64 w X = w div X" using assms by (intro quo64_id) auto
  have d0: "0 \<le> w div X" using assms by (simp add: pos_imp_zdiv_nonneg_iff)
  have "w div X * X \<le> w" using assms int_le_div_iff by blast
  moreover have "w div X \<le> w div X * X" using d0 assms by (intro le_mult_pos) auto
  ultimately have dw: "w div X \<le> w" by linarith
  then have le: "w div X * h \<le> w * h" using assms by (intro mult_right_mono) auto
  have p0: "0 \<le> w div X * h" using d0 assms by simp
  have m: "mul64 (w div X) h = w div X * h" using d0 assms le by (intro mul64_id) auto
  have q2: "quo64 (w div X * h) Yf = (w div X * h) div Yf"
    using p0 le assms by (intro quo64_id) auto
  have "0 \<le> (w div X * h) div Yf" using p0 assms by (simp add: pos_imp_zdiv_nonneg_iff)
  then show ?thesis
    using assms by (simp add: chromaCap_def divGo_def wq m q2 makeCap_def)
qed

lemma Crop_ok:
  assumes t: "inSubsamplingTable (Frame.Chroma f)"
    and c: "planesCover f"
    and r: "cropInBounds f w h xOffset yOffset"
  shows "Crop f w h xOffset yOffset =
     (Ok (),
      f\<lparr>Y := specCropRows (Y f) (Frame.Width f) w h xOffset yOffset,
        Cb := chromaCropRows (Cb f) (Frame.Width f) (xSubsamplingFactor (Frame.Chroma f))
                (ySubsamplingFactor (Frame.Chroma f)) w h xOffset yOffset,
        Cr := chromaCropRows (Cr f) (Frame.Width f) (xSubsamplingFactor (Frame.Chroma f))
                (ySubsamplingFactor (Frame.Chroma f)) w h xOffset yOffset,
        Alpha := (if Alpha f = [] then []
                  else specCropRows (Alpha f) (Frame.Width f) w h xOffset yOffset),
        Frame.Width := w, Frame.Height := h\<rparr>)"
proof -
  let ?W = "Frame.Width f" and ?H = "Frame.Height f"
  let ?X = "xSubsamplingFactor (Frame.Chroma f)" and ?Yf = "ySubsamplingFactor (Frame.Chroma f)"
  have pos: "0 < ?X" "0 < ?Yf" using table_factors_pos [OF t] by auto
  have rq: "0 \<le> w" "0 \<le> h" "0 \<le> xOffset" "0 \<le> yOffset" "w + xOffset \<le> ?W" "h + yOffset \<le> ?H"
    using r by (auto simp: cropInBounds_def)
  have cv: "0 \<le> ?W" "?W < 2 ^ 63" "0 \<le> ?H" "?H < 2 ^ 63" "?W * ?H < 2 ^ 63"
    "?W * ?H \<le> int (length (Y f))"
    "?W * ?H div ?X div ?Yf \<le> int (length (Cb f))"
    "?W * ?H div ?X div ?Yf \<le> int (length (Cr f))"
    "Alpha f = [] \<or> ?W * ?H \<le> int (length (Alpha f))"
    using c by (auto simp: planesCover_def)
  have b1: "add64 w xOffset = w + xOffset" using rq cv by (intro add64_id) auto
  have b2: "add64 h yOffset = h + yOffset" using rq cv by (intro add64_id) auto
  have wh: "w * h \<le> ?W * ?H" using rq by (intro prod_le) auto
  have luma: "cropPlane (Y f) ?W w h xOffset yOffset = Ok (specCropRows (Y f) ?W w h xOffset yOffset)"
    using rq cv by (intro cropPlane_rows [where H = "Frame.Height f"]) auto
  have cap: "chromaCap w h ?X ?Yf = Ok ()"
    using rq cv pos wh by (intro chromaCap_ok) auto
  have loop: "cropChromaLoop (Cb f) (Cr f) ?W ?X ?Yf w h xOffset yOffset 0 [] [] =
      Ok (chromaCropRows (Cb f) ?W ?X ?Yf w h xOffset yOffset,
          chromaCropRows (Cr f) ?W ?X ?Yf w h xOffset yOffset)"
    using cropChromaLoop_rows [OF rq(1) rq(2) rq(3) rq(4) cv(1) rq(5) rq(6) pos(1) pos(2)
        cv(7) cv(8) cv(5) cv(4) cv(2), of 0 "[]" "[]"]
    by (simp add: chromaCropRows_def)
  have alpha: "Alpha f \<noteq> [] \<Longrightarrow>
      cropPlane (Alpha f) ?W w h xOffset yOffset = Ok (specCropRows (Alpha f) ?W w h xOffset yOffset)"
    using rq cv by (intro cropPlane_rows [where H = "Frame.Height f"]) auto
  show ?thesis
    using rq
    by (simp add: Crop_def b1 b2 luma cropChroma_def cap loop alpha Let_def)
qed

lemma length_concat_rows:
  "(\<And>i. i \<in> set js \<Longrightarrow> length (g i) = k) \<Longrightarrow> length (concat (map g js)) = length js * k"
  by (induction js) auto

lemma length_row:
  "0 \<le> k \<Longrightarrow> 0 \<le> n \<Longrightarrow> k + n \<le> int (length src) \<Longrightarrow>
   length (take (nat n) (drop (nat k) src)) = nat n"
  by (simp add: min_def) linarith

lemma length_specCropRows:
  assumes "0 \<le> w" "0 \<le> h" "0 \<le> xo" "0 \<le> yo" "0 \<le> W" "w + xo \<le> W" "h + yo \<le> H"
    and "W * H \<le> int (length src)"
  shows "int (length (specCropRows src W w h xo yo)) = h * w"
proof -
  have "length (specCropRows src W w h xo yo) = length [0..h - 1] * nat w"
    unfolding specCropRows_def
  proof (rule length_concat_rows)
    fix i assume "i \<in> set [0..h - 1]"
    then have i: "0 \<le> i" "i < h" by auto
    have b: "(i + yo) * W + xo + w \<le> W * H"
      using row_bound [OF i(1) i(2) assms(4) assms(7) assms(5) assms(3) assms(1) assms(6)] .
    have "0 \<le> (i + yo) * W" using i assms by simp
    then show "length (take (nat w) (drop (nat ((i + yo) * W + xo)) src)) = nat w"
      using b assms by (intro length_row) auto
  qed
  then show ?thesis using assms by simp
qed

lemma length_chromaCropRows:
  assumes "0 \<le> w" "0 \<le> h" "0 \<le> xo" "0 \<le> yo" "0 \<le> W" "w + xo \<le> W" "h + yo \<le> H"
    and "0 < X" "0 < Yf"
    and "(W * H) div X div Yf \<le> int (length src)"
  shows "int (length (chromaCropRows src W X Yf w h xo yo)) = (h div Yf) * (w div X)"
proof -
  have "length (chromaCropRows src W X Yf w h xo yo) = length [0..h div Yf - 1] * nat (w div X)"
    unfolding chromaCropRows_def
  proof (rule length_concat_rows)
    fix i assume "i \<in> set [0..h div Yf - 1]"
    then have i: "0 \<le> i" "i < h div Yf" by auto
    have b: "((i + yo div Yf) * W) div X + xo div X + w div X \<le> (W * H) div X div Yf"
      using chroma_row_bound [OF i(1) i(2) assms(4) assms(7) assms(5) assms(3) assms(1) assms(6)
          assms(8) assms(9)] .
    have "0 \<le> yo div Yf" using assms by (simp add: pos_imp_zdiv_nonneg_iff)
    then have "0 \<le> (i + yo div Yf) * W" using i assms by simp
    then have "0 \<le> ((i + yo div Yf) * W) div X" using assms by (simp add: pos_imp_zdiv_nonneg_iff)
    moreover have "0 \<le> xo div X" "0 \<le> w div X" using assms by (simp_all add: pos_imp_zdiv_nonneg_iff)
    ultimately show "length (take (nat (w div X))
             (drop (nat (((i + yo div Yf) * W) div X + xo div X)) src)) = nat (w div X)"
      using b assms by (intro length_row) auto
  qed
  moreover have "0 \<le> h div Yf" "0 \<le> w div X" using assms by (simp_all add: pos_imp_zdiv_nonneg_iff)
  ultimately show ?thesis by simp
qed




lemma exampleFrame444_ok:
  "inSubsamplingTable (Frame.Chroma exampleFrame444)" "planesCover exampleFrame444"
  "cropInBounds exampleFrame444 2 1 1 0"
  by (simp_all add: exampleFrame444_def inSubsamplingTable_def xSubsamplingTable_def
      planesCover_def cropInBounds_def xSubsamplingFactor_def ySubsamplingFactor_def
      ySubsamplingTable_def)



section \<open>The frame invariant\<close>

lemma geom_sizes:
  "geom s = geom s' \<Longrightarrow>
   LumaPlaneSize s = LumaPlaneSize s' \<and> ChromaPlaneSize s = ChromaPlaneSize s' \<and>
   AlphaPlaneSize s = AlphaPlaneSize s'"
  by (auto simp: geom_def LumaPlaneSize_def ChromaPlaneSize_def AlphaPlaneSize_def
      split: res.splits)

lemma ParseFrameHeader_geom: "ParseFrameHeader s = (r, s1) \<Longrightarrow> geom s1 = geom s"
  by (auto simp: ParseFrameHeader_def geom_def split: prod.splits option.splits list.splits
      res.splits if_splits)

lemma grabPlane_geom: "grabPlane s n = (r, s1) \<Longrightarrow> geom s1 = geom s"
  by (auto simp: grabPlane_def geom_def split: prod.splits if_splits)

lemma grabPlane_length: "grabPlane s n = (Ok p, s1) \<Longrightarrow> int (length p) = n"
  by (auto simp: grabPlane_def ReadFull_def Let_def split: prod.splits if_splits)

lemma geom_geometryOf:
  "factorsConsistent s \<Longrightarrow> Frame.Width f = Stream.Width s \<Longrightarrow>
   Frame.Height f = Stream.Height s \<Longrightarrow> Frame.Chroma f = Stream.Chroma s \<Longrightarrow>
   geom (geometryOf f) = geom s"
  by (simp add: geom_def geometryOf_def factorsConsistent_def newStream_def)

lemma ParseFrame_invariant:
  assumes fc: "factorsConsistent s" and pf: "ParseFrame s = (Ok f, s')"
  shows "frameInvariant f"
proof -
  from pf obtain fh s1 where h: "ParseFrameHeader s = (Ok fh, s1)"
    by (auto simp: ParseFrame_def thenS_def split: prod.splits res.splits)
  from pf h obtain y s2 where g1: "grabPlane s1 (LumaPlaneSize s1) = (Ok y, s2)"
    by (auto simp: ParseFrame_def thenS_def split: prod.splits res.splits)
  from pf h g1 obtain c where c1: "ChromaPlaneSize s2 = Ok c"
    by (auto simp: ParseFrame_def thenS_def split: prod.splits res.splits)
  from pf h g1 c1 obtain cb s4 where g2: "grabPlane s2 c = (Ok cb, s4)"
    by (auto simp: ParseFrame_def thenS_def split: prod.splits res.splits)
  from pf h g1 c1 g2 obtain c' where c2: "ChromaPlaneSize s4 = Ok c'"
    by (auto simp: ParseFrame_def thenS_def split: prod.splits res.splits)
  from pf h g1 c1 g2 c2 obtain cr s6 where g3: "grabPlane s4 c' = (Ok cr, s6)"
    by (auto simp: ParseFrame_def thenS_def split: prod.splits res.splits)
  from pf h g1 c1 g2 c2 g3 obtain al s7 where g4: "grabPlane s6 (AlphaPlaneSize s6) = (Ok al, s7)"
    by (auto simp: ParseFrame_def thenS_def split: prod.splits res.splits)
  from pf h g1 c1 g2 c2 g3 g4 have f: "f = \<lparr>Frame.Header = Some fh, Frame.Width = Stream.Width s7,
            Frame.Height = Stream.Height s7, Frame.Chroma = Stream.Chroma s7,
            Y = y, Cb = cb, Cr = cr, Alpha = al\<rparr>"
    by (auto simp: ParseFrame_def thenS_def)
  have e1: "geom s1 = geom s" using h by (rule ParseFrameHeader_geom)
  have e2: "geom s2 = geom s" using g1 e1 by (simp add: grabPlane_geom)
  have e4: "geom s4 = geom s" using g2 e2 by (simp add: grabPlane_geom)
  have e6: "geom s6 = geom s" using g3 e4 by (simp add: grabPlane_geom)
  have e7: "geom s7 = geom s" using g4 e6 by (simp add: grabPlane_geom)
  have dims: "Frame.Width f = Stream.Width s" "Frame.Height f = Stream.Height s"
    "Frame.Chroma f = Stream.Chroma s"
    using e7 by (simp_all add: f geom_def)
  have eg: "geom (geometryOf f) = geom s" using fc dims by (rule geom_geometryOf)
  have L: "LumaPlaneSize (geometryOf f) = LumaPlaneSize s1"
    and C1: "ChromaPlaneSize (geometryOf f) = ChromaPlaneSize s2"
    and C2: "ChromaPlaneSize (geometryOf f) = ChromaPlaneSize s4"
    and A: "AlphaPlaneSize (geometryOf f) = AlphaPlaneSize s6"
    using geom_sizes [of "geometryOf f" s1] geom_sizes [of "geometryOf f" s2]
      geom_sizes [of "geometryOf f" s4] geom_sizes [of "geometryOf f" s6] eg e1 e2 e4 e6
    by simp_all
  have pl: "Y f = y" "Cb f = cb" "Cr f = cr" "Alpha f = al"
    by (simp_all add: f)
  have cc: "c' = c" using c1 c2 C1 C2 by simp
  show ?thesis
    using grabPlane_length [OF g1] grabPlane_length [OF g2] grabPlane_length [OF g3]
      grabPlane_length [OF g4] c1 c2
    by (simp add: frameInvariant_def L C1 A pl cc)
qed

lemma ChromaPlaneSize_in_range:
  assumes "Stream.Chroma s \<noteq> ''mono''" "0 < XSubsamplingFactor s" "0 < YSubsamplingFactor s"
    and "0 \<le> Stream.Width s" "0 \<le> Stream.Height s" "Stream.Width s * Stream.Height s < 2 ^ 63"
  shows "ChromaPlaneSize s =
           Ok (Stream.Width s * Stream.Height s div XSubsamplingFactor s div YSubsamplingFactor s)"
proof -
  let ?P = "Stream.Width s * Stream.Height s"
  have p0: "0 \<le> ?P" using assms by simp
  have m: "mul64 (Stream.Width s) (Stream.Height s) = ?P" using assms by (intro mul64_id) auto
  have q1: "quo64 ?P (XSubsamplingFactor s) = ?P div XSubsamplingFactor s"
    using assms p0 by (intro quo64_id) auto
  have d0: "0 \<le> ?P div XSubsamplingFactor s" using p0 assms by (simp add: pos_imp_zdiv_nonneg_iff)
  have "?P div XSubsamplingFactor s * XSubsamplingFactor s \<le> ?P"
    using assms int_le_div_iff by blast
  moreover have "?P div XSubsamplingFactor s \<le> ?P div XSubsamplingFactor s * XSubsamplingFactor s"
    using d0 assms by (intro le_mult_pos) auto
  ultimately have "?P div XSubsamplingFactor s \<le> ?P" by linarith
  then have q2: "quo64 (?P div XSubsamplingFactor s) (YSubsamplingFactor s)
      = ?P div XSubsamplingFactor s div YSubsamplingFactor s"
    using assms d0 by (intro quo64_id) auto
  show ?thesis using assms by (simp add: ChromaPlaneSize_def divGo_def m q1 q2)
qed

lemma table_not_special:
  "inSubsamplingTable c \<Longrightarrow> c \<noteq> ''mono'' \<and> c \<noteq> ''444alpha''"
  by (auto simp: inSubsamplingTable_def xSubsamplingTable_def)

lemma geometryOf_fields:
  "Stream.Width (geometryOf f) = Frame.Width f"
  "Stream.Height (geometryOf f) = Frame.Height f"
  "Stream.Chroma (geometryOf f) = Frame.Chroma f"
  "XSubsamplingFactor (geometryOf f) = xSubsamplingFactor (Frame.Chroma f)"
  "YSubsamplingFactor (geometryOf f) = ySubsamplingFactor (Frame.Chroma f)"
  by (simp_all add: geometryOf_def newStream_def)

lemma frameInvariant_in_range:
  assumes t: "inSubsamplingTable (Frame.Chroma f)" and d: "dimsInRange f"
  shows "frameInvariant f \<longleftrightarrow>
           int (length (Y f)) = Frame.Width f * Frame.Height f \<and>
           int (length (Cb f)) = Frame.Width f * Frame.Height f
              div xSubsamplingFactor (Frame.Chroma f) div ySubsamplingFactor (Frame.Chroma f) \<and>
           int (length (Cr f)) = Frame.Width f * Frame.Height f
              div xSubsamplingFactor (Frame.Chroma f) div ySubsamplingFactor (Frame.Chroma f) \<and>
           Alpha f = []"
proof -
  have pos: "0 < xSubsamplingFactor (Frame.Chroma f)" "0 < ySubsamplingFactor (Frame.Chroma f)"
    using table_factors_pos [OF t] by auto
  have ns: "Frame.Chroma f \<noteq> ''mono''" "Frame.Chroma f \<noteq> ''444alpha''"
    using table_not_special [OF t] by auto
  have dd: "0 \<le> Frame.Width f" "0 \<le> Frame.Height f" "Frame.Width f * Frame.Height f < 2 ^ 63"
    using d by (auto simp: dimsInRange_def)
  have L: "LumaPlaneSize (geometryOf f) = Frame.Width f * Frame.Height f"
    using dd mul64_id [of "Frame.Height f" "Frame.Width f"]
    by (simp add: LumaPlaneSize_def geometryOf_fields mult.commute)
  have C: "ChromaPlaneSize (geometryOf f) =
      Ok (Frame.Width f * Frame.Height f
            div xSubsamplingFactor (Frame.Chroma f) div ySubsamplingFactor (Frame.Chroma f))"
    using ChromaPlaneSize_in_range [of "geometryOf f"] pos ns dd
    by (simp add: geometryOf_fields)
  have A: "AlphaPlaneSize (geometryOf f) = 0"
    using ns by (simp add: AlphaPlaneSize_def geometryOf_fields)
  show ?thesis
    by (auto simp: frameInvariant_def L C A)
qed

lemma Crop_preserves_invariant:
  assumes t: "inSubsamplingTable (Frame.Chroma f)" and i: "frameInvariant f"
    and d: "dimsInRange f" and r: "cropInBounds f w h xOffset yOffset"
    and ax: "xSubsamplingFactor (Frame.Chroma f) dvd w"
    and ay: "ySubsamplingFactor (Frame.Chroma f) dvd h"
  shows "fst (Crop f w h xOffset yOffset) = Ok () \<and>
         frameInvariant (snd (Crop f w h xOffset yOffset))"
proof -
  let ?W = "Frame.Width f" and ?H = "Frame.Height f"
  let ?X = "xSubsamplingFactor (Frame.Chroma f)" and ?Yf = "ySubsamplingFactor (Frame.Chroma f)"
  have pos: "0 < ?X" "0 < ?Yf" using table_factors_pos [OF t] by auto
  have inv: "int (length (Y f)) = ?W * ?H" "int (length (Cb f)) = ?W * ?H div ?X div ?Yf"
    "int (length (Cr f)) = ?W * ?H div ?X div ?Yf" "Alpha f = []"
    using i frameInvariant_in_range [OF t d] by auto
  have dd: "0 \<le> ?W" "?W < 2 ^ 63" "0 \<le> ?H" "?H < 2 ^ 63" "?W * ?H < 2 ^ 63"
    using d by (auto simp: dimsInRange_def)
  have rq: "0 \<le> w" "0 \<le> h" "0 \<le> xOffset" "0 \<le> yOffset" "w + xOffset \<le> ?W" "h + yOffset \<le> ?H"
    using r by (auto simp: cropInBounds_def)
  have c: "planesCover f" using inv dd by (simp add: planesCover_def)
  define f' where "f' = snd (Crop f w h xOffset yOffset)"
  have ok: "fst (Crop f w h xOffset yOffset) = Ok ()" by (simp add: Crop_ok [OF t c r])
  have fields: "Frame.Width f' = w" "Frame.Height f' = h" "Frame.Chroma f' = Frame.Chroma f"
    "Y f' = specCropRows (Y f) ?W w h xOffset yOffset"
    "Cb f' = chromaCropRows (Cb f) ?W ?X ?Yf w h xOffset yOffset"
    "Cr f' = chromaCropRows (Cr f) ?W ?X ?Yf w h xOffset yOffset"
    "Alpha f' = []"
    by (simp_all add: f'_def Crop_ok [OF t c r] inv)
  have wh: "w * h \<le> ?W * ?H" using rq by (intro prod_le) auto
  have d': "dimsInRange f'"
    using rq dd wh by (simp add: dimsInRange_def fields)
  have t': "inSubsamplingTable (Frame.Chroma f')" using t by (simp add: fields)
  have ly: "int (length (Y f')) = w * h"
    using length_specCropRows [of w h xOffset yOffset ?W ?H "Y f"] rq dd inv
    by (simp add: fields mult.commute)
  have lcb: "int (length (Cb f')) = w * h div ?X div ?Yf"
    using length_chromaCropRows [of w h xOffset yOffset ?W ?H ?X ?Yf "Cb f"] rq dd inv pos
      aligned_size [OF pos ax ay]
    by (simp add: fields)
  have lcr: "int (length (Cr f')) = w * h div ?X div ?Yf"
    using length_chromaCropRows [of w h xOffset yOffset ?W ?H ?X ?Yf "Cr f"] rq dd inv pos
      aligned_size [OF pos ax ay]
    by (simp add: fields)
  have "frameInvariant f'"
    using frameInvariant_in_range [OF t' d'] ly lcb lcr
    by (simp add: fields)
  then show ?thesis using ok by (simp add: f'_def)
qed

lemma ParseFrame_ok:
  assumes h: "ParseFrameHeader s = (Ok fh, s1)"
    and c: "ChromaPlaneSize s1 = Ok c"
    and nn: "0 \<le> LumaPlaneSize s1" "0 \<le> c" "0 \<le> AlphaPlaneSize s1"
    and enough: "LumaPlaneSize s1 + 2 * c + AlphaPlaneSize s1 \<le> int (length (remaining s1))"
  shows "ParseFrame s =
     (Ok \<lparr>Frame.Header = Some fh, Frame.Width = Stream.Width s1,
          Frame.Height = Stream.Height s1, Frame.Chroma = Stream.Chroma s1,
          Y = take (nat (LumaPlaneSize s1)) (remaining s1),
          Cb = take (nat c) (drop (nat (LumaPlaneSize s1)) (remaining s1)),
          Cr = take (nat c) (drop (nat (LumaPlaneSize s1) + nat c) (remaining s1)),
          Alpha = take (nat (AlphaPlaneSize s1))
                    (drop (nat (LumaPlaneSize s1) + nat c + nat c) (remaining s1))\<rparr>,
      advance s1 (nat (LumaPlaneSize s1) + nat c + nat c + nat (AlphaPlaneSize s1)))"
proof -
  define L where "L = LumaPlaneSize s1"
  define A where "A = AlphaPlaneSize s1"
  define r where "r = remaining s1"
  have L0: "0 \<le> L" and A0: "0 \<le> A" using nn by (simp_all add: L_def A_def)
  have lens: "nat L + nat c + nat c + nat A \<le> length r"
    using nn enough by (simp add: L_def A_def r_def)
  have rr: "remaining s1 = r" by (simp add: r_def)
  have b1: "L \<le> int (length r)" using lens L0 by linarith
  have b2: "c \<le> int (length r - nat L)" using lens L0 nn by linarith
  have b3: "c \<le> int (length r - (nat L + nat c))" using lens L0 nn by linarith
  have b4: "A \<le> int (length r - (nat L + nat c + nat c))" using lens L0 A0 nn by linarith
  have g1: "grabPlane s1 L = (Ok (take (nat L) r), advance s1 (nat L))"
    using L0 b1 by (simp add: grabPlane_result rr min_def)
  have g2: "grabPlane (advance s1 (nat L)) c
      = (Ok (take (nat c) (drop (nat L) r)), advance s1 (nat L + nat c))"
    using nn b2 by (simp add: grabPlane_result rr min_def)
  have g3: "grabPlane (advance s1 (nat L + nat c)) c
      = (Ok (take (nat c) (drop (nat L + nat c) r)), advance s1 (nat L + nat c + nat c))"
    using nn b3 by (simp add: grabPlane_result rr min_def)
  have g4: "grabPlane (advance s1 (nat L + nat c + nat c)) A
      = (Ok (take (nat A) (drop (nat L + nat c + nat c) r)),
         advance s1 (nat L + nat c + nat c + nat A))"
    using A0 b4 by (simp add: grabPlane_result rr min_def)
  show ?thesis
    unfolding L_def [symmetric] A_def [symmetric] r_def [symmetric]
    by (simp add: ParseFrame_def thenS_def h L_def [symmetric] g1 c g2 g3 A_def [symmetric] g4)
qed

lemma ParseFrame_example:
  "ParseFrame (exampleStream444 exampleFrameBytes 21)
     = (Ok exampleFrameRead, exampleStream444 exampleFrameBytes 51)"
proof -
  have h: "ParseFrameHeader (exampleStream444 exampleFrameBytes 21)
      = (Ok exampleFrameHeader, exampleStream444 exampleFrameBytes 27)"
    unfolding exampleFrameBytes_split by (rule ParseFrameHeader_example)
  have r: "remaining (exampleStream444 exampleFrameBytes 27) = ''01234567abcdefghijklmnop''"
    using ex_remaining_k [of exampleFrameBytes 6] by (simp add: exampleFrameBytes_split)
  have w: "Stream.Width (exampleStream444 exampleFrameBytes 27) = 4"
    "Stream.Height (exampleStream444 exampleFrameBytes 27) = 2"
    "Stream.Chroma (exampleStream444 exampleFrameBytes 27) = ''444''"
    by (simp_all add: exampleStream444_def)
  show ?thesis
    using ParseFrame_ok [OF h, of 8]
    by (simp add: ex_geometry r ex_advance exampleFrameRead_def w)
qed

text \<open>
  C5, as the code has it. A frame that \<open>ParseFrame\<close> returns on a stream whose factors
  are those of its chroma tag (as \<open>Open\<close> leaves them) has planes of the sizes of its
  own width, height and chroma tag. A frame with that invariant, with dimensions in
  range, keeps it through a \<open>Crop\<close> with a non-negative request within bounds whose
  \<open>w\<close> and \<open>h\<close> are multiples of the horizontal and vertical subsampling factors; the
  crop succeeds.
\<close>

theorem frame_invariant_established:
  "(factorsConsistent s \<and> ParseFrame s = (Ok f, s') \<longrightarrow> frameInvariant f) \<and>
   (inSubsamplingTable (Frame.Chroma g) \<and> frameInvariant g \<and> dimsInRange g \<and>
    cropInBounds g w h xOffset yOffset \<and>
    xSubsamplingFactor (Frame.Chroma g) dvd w \<and> ySubsamplingFactor (Frame.Chroma g) dvd h \<longrightarrow>
      fst (Crop g w h xOffset yOffset) = Ok () \<and>
      frameInvariant (snd (Crop g w h xOffset yOffset)))"
  using ParseFrame_invariant [of s f s'] Crop_preserves_invariant [of g w h xOffset yOffset]
  by blast


lemma exampleFrame444_invariant:
  "frameInvariant exampleFrame444" "dimsInRange exampleFrame444"
proof -
  show d: "dimsInRange exampleFrame444"
    by (simp add: dimsInRange_def exampleFrame444_def)
  show "frameInvariant exampleFrame444"
    using frameInvariant_in_range [OF exampleFrame444_ok(1) d]
    by (simp add: exampleFrame444_def xSubsamplingFactor_def ySubsamplingFactor_def
        xSubsamplingTable_def ySubsamplingTable_def)
qed

lemma exampleStream444_consistent: "factorsConsistent (exampleStream444 body j)"
  by (simp add: factorsConsistent_def exampleStream444_def xSubsamplingFactor_def
      ySubsamplingFactor_def xSubsamplingTable_def ySubsamplingTable_def)


theorem frame_invariant_established_witness:
  "factorsConsistent (exampleStream444 exampleFrameBytes 21) \<and>
   ParseFrame (exampleStream444 exampleFrameBytes 21)
     = (Ok exampleFrameRead, exampleStream444 exampleFrameBytes 51) \<and>
   frameInvariant exampleFrameRead \<and>
   inSubsamplingTable (Frame.Chroma exampleFrame444) \<and> frameInvariant exampleFrame444 \<and>
   dimsInRange exampleFrame444 \<and> cropInBounds exampleFrame444 2 1 1 0 \<and>
   xSubsamplingFactor (Frame.Chroma exampleFrame444) dvd 2 \<and>
   ySubsamplingFactor (Frame.Chroma exampleFrame444) dvd 1 \<and>
   fst (Crop exampleFrame444 2 1 1 0) = Ok () \<and>
   frameInvariant (snd (Crop exampleFrame444 2 1 1 0))"
proof -
  have dv: "xSubsamplingFactor (Frame.Chroma exampleFrame444) dvd 2"
    "ySubsamplingFactor (Frame.Chroma exampleFrame444) dvd 1"
    by (simp_all add: exampleFrame444_def xSubsamplingFactor_def ySubsamplingFactor_def
        xSubsamplingTable_def ySubsamplingTable_def)
  show ?thesis
    using frame_invariant_established
            [of "exampleStream444 exampleFrameBytes 21" exampleFrameRead
                "exampleStream444 exampleFrameBytes 51" exampleFrame444 2 1 1 0]
          exampleStream444_consistent ParseFrame_example exampleFrame444_ok
          exampleFrame444_invariant dv
    by simp
qed


text \<open>
  The claim C5 as stated fails after a crop whose width is not a multiple of the
  horizontal factor: the 4 by 2 frame with chroma 422 satisfies the invariant, the crop
  to \<open>w = 1\<close>, \<open>h = 2\<close> succeeds, and the cropped frame has an empty Cb plane where its
  width, height and chroma tag give a chroma plane of one byte.
\<close>

lemma exampleFrame422_facts:
  "inSubsamplingTable (Frame.Chroma exampleFrame422)" "planesCover exampleFrame422"
  "cropInBounds exampleFrame422 1 2 0 0" "dimsInRange exampleFrame422"
  "xSubsamplingFactor (Frame.Chroma exampleFrame422) = 2"
  "ySubsamplingFactor (Frame.Chroma exampleFrame422) = 1"
  by (simp_all add: exampleFrame422_def inSubsamplingTable_def xSubsamplingTable_def
      planesCover_def cropInBounds_def xSubsamplingFactor_def ySubsamplingFactor_def
      ySubsamplingTable_def dimsInRange_def)


theorem frame_invariant_after_crop_counterexample:
  "frameInvariant exampleFrame422 \<and>
   fst (Crop exampleFrame422 1 2 0 0) = Ok () \<and>
   Frame.Width (snd (Crop exampleFrame422 1 2 0 0)) = 1 \<and>
   Frame.Height (snd (Crop exampleFrame422 1 2 0 0)) = 2 \<and>
   Cb (snd (Crop exampleFrame422 1 2 0 0)) = [] \<and>
   ChromaPlaneSize (geometryOf (snd (Crop exampleFrame422 1 2 0 0))) = Ok 1 \<and>
   \<not> frameInvariant (snd (Crop exampleFrame422 1 2 0 0))"
proof -
  define f' where "f' = snd (Crop exampleFrame422 1 2 0 0)"
  have i: "frameInvariant exampleFrame422"
    using frameInvariant_in_range [OF exampleFrame422_facts(1) exampleFrame422_facts(4)]
    by (simp add: exampleFrame422_facts) (simp add: exampleFrame422_def)
  have ok: "fst (Crop exampleFrame422 1 2 0 0) = Ok ()"
    by (simp add: Crop_ok [OF exampleFrame422_facts(1) exampleFrame422_facts(2)
          exampleFrame422_facts(3)])
  have fl: "Frame.Width f' = 1" "Frame.Height f' = 2" "Frame.Chroma f' = ''422''"
    "Cb f' = chromaCropRows (Cb exampleFrame422) 4 2 1 1 2 0 0"
    by (simp_all add: f'_def Crop_ok [OF exampleFrame422_facts(1) exampleFrame422_facts(2)
          exampleFrame422_facts(3)] exampleFrame422_facts)
       (simp_all add: exampleFrame422_def)
  have cb: "Cb f' = []"
    by (simp add: fl chromaCropRows_def)
  have t': "inSubsamplingTable (Frame.Chroma f')"
    by (simp add: fl inSubsamplingTable_def xSubsamplingTable_def)
  have d': "dimsInRange f'" by (simp add: dimsInRange_def fl)
  have x': "xSubsamplingFactor ''422'' = 2" "ySubsamplingFactor ''422'' = 1"
    by (simp_all add: xSubsamplingFactor_def ySubsamplingFactor_def
        xSubsamplingTable_def ySubsamplingTable_def)
  have cps: "ChromaPlaneSize (geometryOf f') = Ok 1"
    using ChromaPlaneSize_in_range [of "geometryOf f'"]
    by (simp add: geometryOf_fields fl x')
  have n: "\<not> frameInvariant f'"
    by (simp add: frameInvariant_def cps cb)
  show ?thesis
    using i ok fl cb cps n by (simp add: f'_def)
qed

end
